theory Spec2Isabelle
  imports Complex_Main
begin

section \<open>Numbers\<close>

text \<open>
  The game stores every quantity in a JavaScript number. Finite values are modelled as exact
  rationals (rounding of IEEE doubles is not modelled); the Body's fields, which the
  error-handling requirement is about, range over the rationals extended by the three special
  values of IEEE arithmetic, with the arithmetic and the comparisons JavaScript gives them.
\<close>

datatype jsnum = Fin rat | PInf | NInf | NaN

fun jadd :: "jsnum \<Rightarrow> jsnum \<Rightarrow> jsnum" where
  "jadd NaN _ = NaN"
| "jadd _ NaN = NaN"
| "jadd PInf NInf = NaN"
| "jadd NInf PInf = NaN"
| "jadd PInf _ = PInf"
| "jadd _ PInf = PInf"
| "jadd NInf _ = NInf"
| "jadd _ NInf = NInf"
| "jadd (Fin a) (Fin b) = Fin (a + b)"

fun jneg :: "jsnum \<Rightarrow> jsnum" where
  "jneg (Fin a) = Fin (- a)"
| "jneg PInf = NInf"
| "jneg NInf = PInf"
| "jneg NaN = NaN"

fun jmul :: "jsnum \<Rightarrow> jsnum \<Rightarrow> jsnum" where
  "jmul NaN _ = NaN"
| "jmul _ NaN = NaN"
| "jmul (Fin a) (Fin b) = Fin (a * b)"
| "jmul PInf (Fin b) = (if b = 0 then NaN else if 0 < b then PInf else NInf)"
| "jmul NInf (Fin b) = (if b = 0 then NaN else if 0 < b then NInf else PInf)"
| "jmul (Fin a) PInf = (if a = 0 then NaN else if 0 < a then PInf else NInf)"
| "jmul (Fin a) NInf = (if a = 0 then NaN else if 0 < a then NInf else PInf)"
| "jmul PInf PInf = PInf"
| "jmul NInf NInf = PInf"
| "jmul PInf NInf = NInf"
| "jmul NInf PInf = NInf"

text \<open>\<open>a < b\<close> in JavaScript: false as soon as one side is NaN.\<close>

fun jlt :: "jsnum \<Rightarrow> jsnum \<Rightarrow> bool" where
  "jlt NaN _ = False"
| "jlt _ NaN = False"
| "jlt (Fin a) (Fin b) = (a < b)"
| "jlt NInf NInf = False"
| "jlt NInf _ = True"
| "jlt PInf _ = False"
| "jlt (Fin a) PInf = True"
| "jlt (Fin a) NInf = False"

definition jgt :: "jsnum \<Rightarrow> jsnum \<Rightarrow> bool" where
  "jgt a b = jlt b a"

text \<open>\<open>a >= b\<close> in JavaScript: \<open>a > b\<close> or equal, and false on NaN.\<close>

definition jge :: "jsnum \<Rightarrow> jsnum \<Rightarrow> bool" where
  "jge a b = (a \<noteq> NaN \<and> b \<noteq> NaN \<and> (jlt b a \<or> a = b))"

text \<open>\<open>Math.max\<close> and \<open>Math.min\<close>: NaN as soon as one argument is NaN.\<close>

definition jmax :: "jsnum \<Rightarrow> jsnum \<Rightarrow> jsnum" where
  "jmax a b = (if a = NaN \<or> b = NaN then NaN else if jlt a b then b else a)"

definition jmin :: "jsnum \<Rightarrow> jsnum \<Rightarrow> jsnum" where
  "jmin a b = (if a = NaN \<or> b = NaN then NaN else if jlt b a then b else a)"

section \<open>Constants of GameCanvas.js\<close>

definition V_WIDTH :: rat where "V_WIDTH = 576"
definition V_HEIGHT :: rat where "V_HEIGHT = 1024"
definition GRAVITY :: rat where "GRAVITY = 4 / 10"
definition JUMP_VELOCITY :: rat where "JUMP_VELOCITY = - (65 / 10)"
definition MAX_FALL_SPEED :: rat where "MAX_FALL_SPEED = 12"
definition SCROLL_SPEED :: rat where "SCROLL_SPEED = 4025 / 1000"
definition PIPE_INTERVAL :: rat where "PIPE_INTERVAL = 350"
definition PIPE_GAP :: rat where "PIPE_GAP = 1625 / 10"
definition CLOUD_SPEED :: rat where "CLOUD_SPEED = 184 / 100"
definition PLUSHPEPE_X :: rat where "PLUSHPEPE_X = 160"
definition PLUSHPEPE_SIZE :: rat where "PLUSHPEPE_SIZE = 96"
definition PLUSHPEPE_HITBOX :: rat where "PLUSHPEPE_HITBOX = 48"
definition PIPE_WIDTH :: rat where "PIPE_WIDTH = 104"
definition FIXED_GROUND_HEIGHT :: rat where "FIXED_GROUND_HEIGHT = 224"
definition FART_DURATION :: rat where "FART_DURATION = 30"
definition CLOUD_SPAWN_INTERVAL :: rat where "CLOUD_SPAWN_INTERVAL = 420"
definition CLOUD_SPAWN_VARIANCE :: rat where "CLOUD_SPAWN_VARIANCE = 0"
definition CLOUD_SIZE :: rat where "CLOUD_SIZE = 64"

section \<open>calculatePepeManeuverability\<close>

text \<open>
  The 90-frame simulation of three flaps. The loop variables are the fields of \<open>sim\<close>; one
  iteration of the \<open>for\<close> loop is \<open>simFrame\<close>.
\<close>

record sim =
  maxUpwardTravel :: rat
  maxDownwardTravel :: rat
  position :: rat
  velocity :: rat
  flapsUsed :: nat

definition simFrame :: "sim \<Rightarrow> nat \<Rightarrow> sim" where
  "simFrame st frame =
     (let st1 = (if frame mod 18 = 0 \<and> flapsUsed st < 3
                 then st\<lparr>velocity := JUMP_VELOCITY, flapsUsed := flapsUsed st + 1\<rparr>
                 else st);
          v1 = velocity st1 + GRAVITY;
          v2 = (if v1 > MAX_FALL_SPEED then MAX_FALL_SPEED else v1);
          p = position st1 + v2;
          up = (if p < maxUpwardTravel st1 then p else maxUpwardTravel st1);
          down = (if p > maxDownwardTravel st1 then p else maxDownwardTravel st1)
      in st1\<lparr>maxUpwardTravel := up, maxDownwardTravel := down, position := p, velocity := v2\<rparr>)"

definition simInit :: sim where
  "simInit = \<lparr>maxUpwardTravel = 0, maxDownwardTravel = 0, position = 0, velocity = 0,
              flapsUsed = 0\<rparr>"

text \<open>The result object \<open>{climb, fall}\<close> as a pair.\<close>

definition calculatePepeManeuverability :: "rat \<times> rat" where
  "calculatePepeManeuverability =
     (let st = foldl simFrame simInit [0..<90];
          climbRange = \<bar>maxUpwardTravel st\<bar> * (85 / 100);
          fallRange = \<bar>maxDownwardTravel st\<bar> * (9 / 10)
      in (climbRange, fallRange))"

section \<open>randomGapY\<close>

text \<open>
  \<open>Math.random()\<close> is a stream \<open>rnd\<close> of numbers and a counter \<open>k\<close> of the draws made so
  far: the \<open>k\<close>-th call returns \<open>rnd k\<close>. Every function that draws returns the new counter
  beside its result. JavaScript promises \<open>0 \<le> rnd k < 1\<close>; theorems that need it assume
  \<open>unitStream rnd\<close>.
\<close>

definition unitStream :: "(nat \<Rightarrow> rat) \<Rightarrow> bool" where
  "unitStream rnd = (\<forall>k. 0 \<le> rnd k \<and> rnd k < 1)"

definition SCREEN_HEIGHT :: rat where "SCREEN_HEIGHT = 1024"
definition ACTUAL_GROUND_Y :: rat where "ACTUAL_GROUND_Y = SCREEN_HEIGHT - FIXED_GROUND_HEIGHT"
definition MIN_PIPE_SHAFT_HEIGHT :: rat where "MIN_PIPE_SHAFT_HEIGHT = 80"
definition SAFE_MARGIN :: rat where "SAFE_MARGIN = 50"
definition minGapY :: rat where "minGapY = MIN_PIPE_SHAFT_HEIGHT + SAFE_MARGIN"
definition maxGapY :: rat where
  "maxGapY = ACTUAL_GROUND_Y - PIPE_GAP - MIN_PIPE_SHAFT_HEIGHT - SAFE_MARGIN"
definition maxAttempts :: nat where "maxAttempts = 20"

text \<open>
  One pass through the body of the \<open>do ... while\<close> loop (lines 175-176): the candidate that
  the draw \<open>r\<close> gives in the range from \<open>rmin\<close> to \<open>rmax\<close>.
\<close>

definition candidateGap :: "rat \<Rightarrow> rat \<Rightarrow> rat \<Rightarrow> rat" where
  "candidateGap r rmin rmax = (let rangeSize = rmax - rmin in of_int \<lfloor>rmin + r * rangeSize\<rfloor>)"

text \<open>
  The \<open>do ... while\<close> loop of lines 174-178: draw, floor, count the attempt, and repeat while
  the candidate is closer than 40 to the previous gap and attempts remain.
\<close>

function resample :: "(nat \<Rightarrow> rat) \<Rightarrow> nat \<Rightarrow> rat \<Rightarrow> rat \<Rightarrow> rat \<Rightarrow> nat \<Rightarrow> rat \<times> nat" where
  "resample rnd k rmin rmax previousGapY attempts =
     (let targetGapY = candidateGap (rnd k) rmin rmax;
          attempts' = attempts + 1
      in if \<bar>targetGapY - previousGapY\<bar> < 40 \<and> attempts' < maxAttempts
         then resample rnd (k + 1) rmin rmax previousGapY attempts'
         else (targetGapY, k + 1))"
  by pat_completeness auto
termination
  by (relation "measure (\<lambda>(rnd, k, rmin, rmax, previousGapY, attempts). maxAttempts - attempts)")
     auto

declare resample.simps [simp del]

text \<open>
  The maneuverability caps of lines 132-134 and the reachable range of lines 140-141. The
  source recomputes them on every call; they depend on constants only.
\<close>

definition MAX_UPWARD_DELTA :: rat where
  "MAX_UPWARD_DELTA = min 95 (fst calculatePepeManeuverability)"

definition MAX_DOWNWARD_DELTA :: rat where
  "MAX_DOWNWARD_DELTA = min 100 (snd calculatePepeManeuverability)"

definition minReachableY :: "rat \<Rightarrow> rat" where
  "minReachableY previousGapY = max minGapY (previousGapY - MAX_UPWARD_DELTA)"

definition maxReachableY :: "rat \<Rightarrow> rat" where
  "maxReachableY previousGapY = min maxGapY (previousGapY + MAX_DOWNWARD_DELTA)"

text \<open>
  The object \<open>finalRange\<close> of lines 146-168 as the pair \<open>(min, max)\<close>: the tier chosen by
  \<open>variationType\<close>, cut to the reachable range.
\<close>

definition finalRange :: "rat \<Rightarrow> rat \<Rightarrow> rat \<times> rat" where
  "finalRange variationType previousGapY =
     (if variationType < 1 / 10
      then (max (minReachableY previousGapY) (previousGapY - 30),
            min (maxReachableY previousGapY) (previousGapY + 30))
      else if variationType < 4 / 10
      then (max (minReachableY previousGapY) (previousGapY - 60),
            min (maxReachableY previousGapY) (previousGapY + 60))
      else (minReachableY previousGapY, maxReachableY previousGapY))"

text \<open>The branch \<open>previousGapY !== null\<close> (lines 139-195), returning the target and the counter.\<close>

definition constrainedGap :: "(nat \<Rightarrow> rat) \<Rightarrow> nat \<Rightarrow> rat \<Rightarrow> rat \<times> nat" where
  "constrainedGap rnd k previousGapY =
     (let variationType = rnd k;
          (rmin, rmax) = finalRange variationType previousGapY;
          (targetGapY, k') = resample rnd (k + 1) rmin rmax previousGapY 0;
          moveUp = previousGapY - 40;
          moveDown = previousGapY + 40
      in if \<bar>targetGapY - previousGapY\<bar> < 40
         then (if moveUp \<ge> minReachableY previousGapY then (moveUp, k')
               else if moveDown \<le> maxReachableY previousGapY then (moveDown, k')
               else if \<bar>minReachableY previousGapY - previousGapY\<bar>
                       > \<bar>maxReachableY previousGapY - previousGapY\<bar>
               then (minReachableY previousGapY, k') else (maxReachableY previousGapY, k'))
         else (targetGapY, k'))"

text \<open>The branch of the first gap (lines 204-209).\<close>

definition firstGap :: "(nat \<Rightarrow> rat) \<Rightarrow> nat \<Rightarrow> rat \<times> nat" where
  "firstGap rnd k =
     (let safeRangeSize = maxGapY - minGapY;
          middleStart = minGapY + safeRangeSize * (25 / 100);
          middleEnd = minGapY + safeRangeSize * (75 / 100)
      in (of_int \<lfloor>middleStart + rnd k * (middleEnd - middleStart)\<rfloor>, k + 1))"

text \<open>\<open>randomGapY(previousGapY = null)\<close>; \<open>None\<close> is \<open>null\<close>.\<close>

definition randomGapY :: "(nat \<Rightarrow> rat) \<Rightarrow> nat \<Rightarrow> rat option \<Rightarrow> rat \<times> nat" where
  "randomGapY rnd k previousGapY =
     (let (targetGapY, k') =
            (case previousGapY of
               Some prev \<Rightarrow> constrainedGap rnd k prev
             | None \<Rightarrow> firstGap rnd k);
          finalGapY = max minGapY (min maxGapY targetGapY)
      in (finalGapY, k'))"

text \<open>The two pipe heights that lines 219-220 compute from the gap and log.\<close>

definition topPipeHeight :: "rat \<Rightarrow> rat" where
  "topPipeHeight finalGapY = finalGapY"

definition bottomPipeHeight :: "rat \<Rightarrow> rat" where
  "bottomPipeHeight finalGapY = ACTUAL_GROUND_Y - (finalGapY + PIPE_GAP)"

section \<open>Game state\<close>

text \<open>
  The component's mutable cells as one record. \<open>gameState\<close> is the string held in
  \<open>gameStateRef\<close>; a call of \<open>setGameState\<close> is modelled as taking effect at once (the
  re-render that copies it into the ref happens before the next event). \<open>storedBest\<close> is the
  entry \<open>'best'\<close> of localStorage (\<open>None\<close> when absent) and \<open>highScore\<close> the React state
  loaded from it. \<open>draws\<close> counts the calls of \<open>Math.random()\<close>. The ground offset is left
  out: it is computed from the loaded image and read by the drawing code only. Field names
  carry a prefix where the source's name (\<open>x\<close>, \<open>y\<close>, \<open>speed\<close>, \<open>top\<close>) would capture a
  variable or a constant.
\<close>

datatype gstate = Ready | Playing | Gameover

record pipe =
  pipe_x :: rat
  gapY :: rat
  scored :: bool

record body =
  body_y :: jsnum
  vel :: jsnum
  rot :: jsnum

record cloud =
  cloud_x :: rat
  cloud_y :: rat
  cloud_speed :: rat

record game =
  gameState :: gstate
  globalScore :: int
  highScore :: int
  storedBest :: "int option"
  plushpepe :: body
  pipes :: "pipe list"
  clouds :: "cloud list"
  cloudSpawnTimer :: rat
  sharedScrollPosition :: rat
  fartTimer :: rat
  fartVisible :: bool
  draws :: nat

text \<open>\<open>loadBest\<close>: the initialiser of the high-score state (lines 353-359), default 0.\<close>

definition loadBest :: "int option \<Rightarrow> int" where
  "loadBest saved = (case saved of Some v \<Rightarrow> v | None \<Rightarrow> 0)"

text \<open>
  \<open>handleGameOver\<close> (lines 488-511) when \<open>localStorage.setItem\<close> returns. The write of the
  key \<open>'test'\<close> touches no modelled cell. The source has no \<open>try\<close> around its two store
  calls; what the handler does when the store throws is \<open>handleGameOverE\<close> below.
\<close>

definition handleGameOver :: "game \<Rightarrow> game" where
  "handleGameOver s =
     (let currentScore = globalScore s;
          prev = highScore s;
          s1 = (if currentScore > prev
                then s\<lparr>storedBest := Some currentScore, highScore := currentScore\<rparr>
                else s)
      in s1\<lparr>gameState := Gameover\<rparr>)"

section \<open>Physics\<close>

text \<open>Lines 635-640 of \<open>update\<close>: gravity, clamp, position, rotation.\<close>

definition integrate :: "rat \<Rightarrow> body \<Rightarrow> body" where
  "integrate step b =
     (let v1 = jadd (vel b) (Fin (GRAVITY * step));
          v2 = (if jgt v1 (Fin MAX_FALL_SPEED) then Fin MAX_FALL_SPEED else v1);
          y2 = jadd (body_y b) (jmul v2 (Fin step));
          r = jmax (Fin (- 30)) (jmin (Fin 90) (jmul v2 (Fin 7)))
      in b\<lparr>body_y := y2, vel := v2, rot := r\<rparr>)"

text \<open>The two boundary tests of lines 646 and 652.\<close>

definition groundCollision :: "jsnum \<Rightarrow> bool" where
  "groundCollision y =
     (let actualGroundY = V_HEIGHT - FIXED_GROUND_HEIGHT
      in jge (jadd y (Fin PLUSHPEPE_HITBOX)) (Fin actualGroundY))"

definition ceilingCollision :: "jsnum \<Rightarrow> bool" where
  "ceilingCollision y = jlt y (Fin 0)"

section \<open>Pipe collision\<close>

record bounds =
  b_left :: rat
  b_right :: rat
  b_top :: rat
  b_bottom :: rat

text \<open>\<open>getPipeCollisionBounds\<close> (lines 321-345): the pair \<open>(topPipe, bottomPipe)\<close>.\<close>

definition getPipeCollisionBounds :: "pipe \<Rightarrow> bounds \<times> bounds" where
  "getPipeCollisionBounds p =
     (let margin = 2;
          groundStartY = V_HEIGHT - FIXED_GROUND_HEIGHT
      in (\<lparr>b_left = pipe_x p + margin, b_right = pipe_x p + PIPE_WIDTH - margin,
            b_top = 0, b_bottom = gapY p - margin\<rparr>,
          \<lparr>b_left = pipe_x p + margin, b_right = pipe_x p + PIPE_WIDTH - margin,
            b_top = gapY p + PIPE_GAP + margin, b_bottom = groundStartY\<rparr>))"

definition hitboxOffsetX :: rat where
  "hitboxOffsetX = (PLUSHPEPE_SIZE - PLUSHPEPE_HITBOX) / 2"

definition hitboxOffsetY :: rat where
  "hitboxOffsetY = (PLUSHPEPE_SIZE - PLUSHPEPE_HITBOX) / 2"

definition plushpepeLeft :: rat where
  "plushpepeLeft = PLUSHPEPE_X + hitboxOffsetX"

definition plushpepeRight :: rat where
  "plushpepeRight = PLUSHPEPE_X + hitboxOffsetX + PLUSHPEPE_HITBOX"

definition plushpepeTop :: "jsnum \<Rightarrow> jsnum" where
  "plushpepeTop y = jadd y (Fin hitboxOffsetY)"

definition plushpepeBottom :: "jsnum \<Rightarrow> jsnum" where
  "plushpepeBottom y = jadd (jadd y (Fin hitboxOffsetY)) (Fin PLUSHPEPE_HITBOX)"

text \<open>The body of the collision loop (lines 726-757): does the Body overlap this pipe?\<close>

definition pipeCollision :: "body \<Rightarrow> pipe \<Rightarrow> bool" where
  "pipeCollision b p =
     (let (topPipe, bottomPipe) = getPipeCollisionBounds p;
          topPipeCollision =
            (plushpepeRight > b_left topPipe \<and> plushpepeLeft < b_right topPipe \<and>
             jgt (plushpepeBottom (body_y b)) (Fin (b_top topPipe)) \<and>
             jlt (plushpepeTop (body_y b)) (Fin (b_bottom topPipe)));
          bottomPipeCollision =
            (plushpepeRight > b_left bottomPipe \<and> plushpepeLeft < b_right bottomPipe \<and>
             jgt (plushpepeBottom (body_y b)) (Fin (b_top bottomPipe)) \<and>
             jlt (plushpepeTop (body_y b)) (Fin (b_bottom bottomPipe)))
      in topPipeCollision \<or> bottomPipeCollision)"

text \<open>The loop itself: \<open>handleGameOver\<close> is called for every pipe that collides.\<close>

definition pipeCollisions :: "game \<Rightarrow> game" where
  "pipeCollisions s =
     foldl (\<lambda>t p. if pipeCollision (plushpepe t) p then handleGameOver t else t) s (pipes s)"

section \<open>Pipe movement, scoring and recycling\<close>

text \<open>The \<open>reduce\<close> of line 717: the first pipe of greatest \<open>x\<close>, starting from \<open>pipes[0]\<close>.\<close>

definition rightmostPipe :: "pipe list \<Rightarrow> pipe" where
  "rightmostPipe ps = foldl (\<lambda>rightmost p. if pipe_x p > pipe_x rightmost then p else rightmost)
                        (ps ! 0) ps"

text \<open>
  The three steps of the loop body (lines 703, 706 and 713): the move, the scoring test on the
  moved pipe, and the recycling test.
\<close>

definition movePipe :: "rat \<Rightarrow> pipe \<Rightarrow> pipe" where
  "movePipe step p = p\<lparr>pipe_x := pipe_x p - SCROLL_SPEED * step\<rparr>"

definition scoresNow :: "pipe \<Rightarrow> bool" where
  "scoresNow p = (\<not> scored p \<and> pipe_x p < PLUSHPEPE_X - PLUSHPEPE_HITBOX / 2)"

definition offScreen :: "pipe \<Rightarrow> bool" where
  "offScreen p = (pipe_x p + PIPE_WIDTH < 0)"

text \<open>
  One iteration of \<open>pipes.current.forEach\<close> (lines 701-723) at index \<open>i\<close>, on the array, the
  score and the draw counter. The array is mutated in place, so the recycling branch sees the
  pipe's own advanced position when it looks for the rightmost pipe. The loop only visits
  indices below the length.
\<close>

definition pipeIter :: "(nat \<Rightarrow> rat) \<Rightarrow> rat \<Rightarrow> pipe list \<times> int \<times> nat \<Rightarrow> nat
                          \<Rightarrow> pipe list \<times> int \<times> nat" where
  "pipeIter rnd step st i =
     (case st of (ps, score, k) \<Rightarrow>
        let p1 = movePipe step (ps ! i);
            crossed = scoresNow p1;
            p2 = (if crossed then p1\<lparr>scored := True\<rparr> else p1);
            score2 = (if crossed then score + 1 else score)
        in if offScreen p2
           then let p3 = p2\<lparr>pipe_x := pipe_x p2 + PIPE_INTERVAL * of_nat (length ps)\<rparr>;
                    r = rightmostPipe (ps[i := p3]);
                    (g, k') = randomGapY rnd k (Some (gapY r))
                in (ps[i := p3\<lparr>gapY := g, scored := False\<rparr>], score2, k')
           else (ps[i := p2], score2, k))"

definition updatePipes :: "(nat \<Rightarrow> rat) \<Rightarrow> rat \<Rightarrow> game \<Rightarrow> game" where
  "updatePipes rnd step s =
     (case foldl (pipeIter rnd step) (pipes s, globalScore s, draws s) [0..<length (pipes s)] of
        (ps, score, k) \<Rightarrow> s\<lparr>pipes := ps, globalScore := score, draws := k\<rparr>)"

section \<open>Clouds\<close>

text \<open>Lines 673-698: one draw for the spawn time on every tick, two more when a cloud spawns.\<close>

definition updateClouds :: "(nat \<Rightarrow> rat) \<Rightarrow> rat \<Rightarrow> game \<Rightarrow> game" where
  "updateClouds rnd step s =
     (let timer = cloudSpawnTimer s + step;
          k = draws s;
          nextSpawnTime = CLOUD_SPAWN_INTERVAL
                          + (rnd k * CLOUD_SPAWN_VARIANCE - CLOUD_SPAWN_VARIANCE / 2);
          s1 = s\<lparr>cloudSpawnTimer := timer, draws := k + 1\<rparr>;
          s2 = (if timer \<ge> nextSpawnTime
                then let groundLevel = V_HEIGHT - FIXED_GROUND_HEIGHT;
                         maxCloudY = groundLevel - 100 - CLOUD_SIZE;
                         cloudY = rnd (k + 1) * (maxCloudY - 50) + 50;
                         c = \<lparr>cloud_x = V_WIDTH + 100, cloud_y = cloudY,
                              cloud_speed = CLOUD_SPEED + (rnd (k + 2) * (4 / 10) - 2 / 10)\<rparr>
                     in s1\<lparr>clouds := clouds s1 @ [c], cloudSpawnTimer := 0, draws := k + 3\<rparr>
                else s1);
          moved = map (\<lambda>c. c\<lparr>cloud_x := cloud_x c - cloud_speed c * step\<rparr>) (clouds s2)
      in s2\<lparr>clouds := filter (\<lambda>c. cloud_x c > - 200) moved\<rparr>)"

section \<open>The tick handler\<close>

definition updateFart :: "rat \<Rightarrow> game \<Rightarrow> game" where
  "updateFart step s =
     (if fartVisible s
      then (if fartTimer s - step \<le> 0
            then s\<lparr>fartVisible := False, fartTimer := 0\<rparr>
            else s\<lparr>fartTimer := fartTimer s - step\<rparr>)
      else s)"

text \<open>Lines 632-640: the scroll position and the Body advance by one step.\<close>

definition advance :: "rat \<Rightarrow> game \<Rightarrow> game" where
  "advance step s =
     s\<lparr>sharedScrollPosition := sharedScrollPosition s + SCROLL_SPEED * step,
       plushpepe := integrate step (plushpepe s)\<rparr>"

text \<open>
  \<open>update(step)\<close> (lines 619-759), in the order of the source: effect timer, state gate,
  physics, ground test, ceiling test (each returning early), clouds, the pipe loop that moves,
  scores and recycles, and last the pipe collision loop.
\<close>

definition update :: "(nat \<Rightarrow> rat) \<Rightarrow> rat \<Rightarrow> game \<Rightarrow> game" where
  "update rnd step s0 =
     (let s = updateFart step s0
      in if gameState s \<noteq> Playing then s
         else let s2 = advance step s
              in if groundCollision (body_y (plushpepe s2)) then handleGameOver s2
                 else if ceilingCollision (body_y (plushpepe s2)) then handleGameOver s2
                 else pipeCollisions (updatePipes rnd step (updateClouds rnd step s2)))"

section \<open>The tick handler with a throwing store\<close>

text \<open>
  \<open>localStorage.setItem\<close> throws when the store is full or disabled, and nothing in the
  source catches it. \<open>storageThrows\<close> says whether it does. The first store call of
  \<open>handleGameOver\<close> (line 492) comes before every assignment of the function and before
  \<open>setGameState\<close>, so the exception leaves the cells as they were at the call, and it
  propagates out of the loop over the pipes and out of \<open>update\<close>. The result is \<open>Inr\<close> of
  the new state when the handler returns, and \<open>Inl\<close> of the exception with the state at the
  throw when it does not.
\<close>

datatype error = StorageError

definition handleGameOverE :: "bool \<Rightarrow> game \<Rightarrow> error \<times> game + game" where
  "handleGameOverE storageThrows s =
     (if storageThrows then Inl (StorageError, s) else Inr (handleGameOver s))"

definition pipeCollisionsE :: "bool \<Rightarrow> game \<Rightarrow> error \<times> game + game" where
  "pipeCollisionsE storageThrows s =
     foldl (\<lambda>r p. case r of
                     Inl e \<Rightarrow> Inl e
                   | Inr t \<Rightarrow> if pipeCollision (plushpepe t) p
                             then handleGameOverE storageThrows t else Inr t)
       (Inr s) (pipes s)"

definition updateE :: "(nat \<Rightarrow> rat) \<Rightarrow> bool \<Rightarrow> rat \<Rightarrow> game \<Rightarrow> error \<times> game + game" where
  "updateE rnd storageThrows step s0 =
     (let s = updateFart step s0
      in if gameState s \<noteq> Playing then Inr s
         else let s2 = advance step s
              in if groundCollision (body_y (plushpepe s2)) then handleGameOverE storageThrows s2
                 else if ceilingCollision (body_y (plushpepe s2))
                 then handleGameOverE storageThrows s2
                 else pipeCollisionsE storageThrows
                        (updatePipes rnd step (updateClouds rnd step s2)))"

section \<open>Input, reset and the initial state\<close>

definition spawnBody :: body where
  "spawnBody = \<lparr>body_y = Fin (V_HEIGHT / 2 - 100), vel = Fin 0, rot = Fin 0\<rparr>"

definition pipeAt :: "nat \<Rightarrow> rat \<Rightarrow> pipe" where
  "pipeAt n g = \<lparr>pipe_x = V_WIDTH + 50 + PIPE_INTERVAL * of_nat n, gapY = g, scored = False\<rparr>"

text \<open>\<open>resetGame\<close> (lines 1026-1055).\<close>

definition resetGame :: "(nat \<Rightarrow> rat) \<Rightarrow> game \<Rightarrow> game" where
  "resetGame rnd s =
     (let (resetFirstGapY, k1) = randomGapY rnd (draws s) None;
          (resetSecondGapY, k2) = randomGapY rnd k1 (Some resetFirstGapY);
          (thirdGapY, k3) = randomGapY rnd k2 (Some resetSecondGapY)
      in s\<lparr>plushpepe := spawnBody,
           pipes := [pipeAt 0 resetFirstGapY, pipeAt 1 resetSecondGapY, pipeAt 2 thirdGapY],
           clouds := [], cloudSpawnTimer := 0, sharedScrollPosition := 0,
           fartVisible := False, fartTimer := 0,
           globalScore := 0, gameState := Ready, draws := k3\<rparr>)"

text \<open>\<open>flap\<close> (lines 589-604), the handler of pointer and key events.\<close>

definition flap :: "(nat \<Rightarrow> rat) \<Rightarrow> game \<Rightarrow> game" where
  "flap rnd s =
     (case gameState s of
        Ready \<Rightarrow> s\<lparr>gameState := Playing, plushpepe := (plushpepe s)\<lparr>vel := Fin JUMP_VELOCITY\<rparr>,
                   fartTimer := FART_DURATION, fartVisible := True\<rparr>
      | Playing \<Rightarrow> s\<lparr>plushpepe := (plushpepe s)\<lparr>vel := Fin JUMP_VELOCITY\<rparr>,
                     fartTimer := FART_DURATION, fartVisible := True\<rparr>
      | Gameover \<Rightarrow> resetGame rnd s)"

text \<open>
  The initial pool (lines 519-524). The array literal evaluates its elements in order, and the
  third element calls \<open>randomGapY(firstGapY)\<close> again instead of reading the second pipe's gap.
\<close>

definition initialPipes :: "(nat \<Rightarrow> rat) \<Rightarrow> nat \<Rightarrow> pipe list \<times> nat" where
  "initialPipes rnd k =
     (let (firstGapY, k1) = randomGapY rnd k None;
          (secondGapY, k2) = randomGapY rnd k1 (Some firstGapY);
          (innerGapY, k3) = randomGapY rnd k2 (Some firstGapY);
          (thirdGapY, k4) = randomGapY rnd k3 (Some innerGapY)
      in ([pipeAt 0 firstGapY, pipeAt 1 secondGapY, pipeAt 2 thirdGapY], k4))"

definition initialGame :: "(nat \<Rightarrow> rat) \<Rightarrow> int option \<Rightarrow> game" where
  "initialGame rnd saved =
     (let (ps, k) = initialPipes rnd 0
      in \<lparr>gameState = Ready, globalScore = 0, highScore = loadBest saved, storedBest = saved,
          plushpepe = spawnBody, pipes = ps, clouds = [], cloudSpawnTimer = 0,
          sharedScrollPosition = 0, fartTimer = 0, fartVisible = False, draws = k\<rparr>)"

text \<open>A run of the component: ticks of the animation loop and input events, in any order.\<close>

datatype event = Tick rat | Flap

fun applyEvent :: "(nat \<Rightarrow> rat) \<Rightarrow> game \<Rightarrow> event \<Rightarrow> game" where
  "applyEvent rnd s (Tick step) = update rnd step s"
| "applyEvent rnd s Flap = flap rnd s"

definition run :: "(nat \<Rightarrow> rat) \<Rightarrow> event list \<Rightarrow> game \<Rightarrow> game" where
  "run rnd evs s = foldl (applyEvent rnd) s evs"

section \<open>The driver\<close>

text \<open>
  \<open>loop\<close> (lines 562-570) hands \<open>update\<close> the time since the last frame, capped at 32ms,
  over 16.67. \<open>maxTimeStep\<close> is the step of a capped frame, and an event is one the driver
  can produce when its step is at most that.
\<close>

definition timeStep :: "rat \<Rightarrow> rat \<Rightarrow> rat" where
  "timeStep now lastTime = (let delta = min (now - lastTime) 32 in delta / (1667 / 100))"

definition maxTimeStep :: rat where
  "maxTimeStep = timeStep 32 0"



section \<open>The high-score invariant\<close>

text \<open>The React state \<open>highScore\<close> mirrors what localStorage holds, 0 when it holds nothing.\<close>

definition bestInv :: "game \<Rightarrow> bool" where
  "bestInv s = (highScore s = loadBest (storedBest s))"

section \<open>Sample inputs\<close>

text \<open>
  Concrete inputs on which the theorems below are instantiated: a stream of draws, and a game
  in a given state with a given Body and pool, all other cells as after a reset.
\<close>

definition sampleStream :: "nat \<Rightarrow> rat" where
  "sampleStream k = (if k = 2 then 0 else if k = 4 \<or> k = 6 then 199 / 200 else 1 / 2)"

definition sampleGame :: "gstate \<Rightarrow> body \<Rightarrow> pipe list \<Rightarrow> game" where
  "sampleGame st b ps =
     \<lparr>gameState = st, globalScore = 0, highScore = 0, storedBest = None, plushpepe = b,
      pipes = ps, clouds = [], cloudSpawnTimer = 0, sharedScrollPosition = 0, fartTimer = 0,
      fartVisible = False, draws = 0\<rparr>"

definition samplePipes :: "pipe list" where
  "samplePipes = [pipeAt 0 318, pipeAt 1 223, pipeAt 2 322]"

text \<open>A pool whose first pipe is far enough to the left to be recycled onto the Body.\<close>

definition strayPipes :: "pipe list" where
  "strayPipes = [\<lparr>pipe_x = - 890, gapY = 300, scored = True\<rparr>,
                 \<lparr>pipe_x = 250, gapY = 300, scored = False\<rparr>,
                 \<lparr>pipe_x = 600, gapY = 300, scored = False\<rparr>]"

text \<open>
  Not in the source: the pool moved by one step and not recycled, the pool a collision test
  placed before the recycling would see.
\<close>

definition shiftPipes :: "rat \<Rightarrow> pipe list \<Rightarrow> pipe list" where
  "shiftPipes step ps = map (movePipe step) ps"

section \<open>Properties of the gap generator\<close>

lemmas consts_simps =
  V_WIDTH_def V_HEIGHT_def GRAVITY_def JUMP_VELOCITY_def MAX_FALL_SPEED_def SCROLL_SPEED_def
  PIPE_INTERVAL_def PIPE_GAP_def CLOUD_SPEED_def PLUSHPEPE_X_def PLUSHPEPE_SIZE_def
  PLUSHPEPE_HITBOX_def PIPE_WIDTH_def FIXED_GROUND_HEIGHT_def FART_DURATION_def
  CLOUD_SPAWN_INTERVAL_def CLOUD_SPAWN_VARIANCE_def CLOUD_SIZE_def

lemma floor_rat_numeral_div:
  "\<lfloor>numeral a / numeral b :: rat\<rfloor> = numeral a div numeral b"
  by (metis floor_divide_of_int_eq of_int_numeral)

lemma sim90:
  "foldl simFrame simInit [0..<90] =
     \<lparr>maxUpwardTravel = - (734 / 5), maxDownwardTravel = 661 / 5, position = 661 / 5,
      velocity = 12, flapsUsed = 3\<rparr>"
  by (simp add: upt_rec [of _ "numeral _"] upt_rec [of 0] simFrame_def simInit_def Let_def
      consts_simps)

lemma maneuverability_value: "calculatePepeManeuverability = (6239/50, 5949/50)"
  by (simp add: calculatePepeManeuverability_def sim90 Let_def)

lemma delta_values: "MAX_UPWARD_DELTA = 95" "MAX_DOWNWARD_DELTA = 100"
  by (simp_all add: MAX_UPWARD_DELTA_def MAX_DOWNWARD_DELTA_def maneuverability_value)

lemma gap_bounds: "minGapY = 130" "maxGapY = 1015 / 2"
  by (simp_all add: minGapY_def maxGapY_def MIN_PIPE_SHAFT_HEIGHT_def SAFE_MARGIN_def
      ACTUAL_GROUND_Y_def SCREEN_HEIGHT_def FIXED_GROUND_HEIGHT_def PIPE_GAP_def)

lemma randomGapY_clamped:
  "minGapY \<le> fst (randomGapY rnd k prev) \<and> fst (randomGapY rnd k prev) \<le> maxGapY"
  by (simp add: randomGapY_def Let_def split_beta gap_bounds)

text \<open>
  Claim C1. Whatever the previous gap is (any number, in or out of the safe range, or none) and
  whatever the random draws are, \<open>randomGapY\<close> returns a gap between \<open>minGapY = 130\<close> and
  \<open>maxGapY = 507.5\<close>; the top pipe (height \<open>finalGapY\<close>) and the bottom pipe (from the gap's
  bottom to the ground line) are then both at least 80 + 50 pixels high.
\<close>

theorem randomGapY_within_safe_range:
  "minGapY \<le> fst (randomGapY rnd k previousGapY) \<and>
   fst (randomGapY rnd k previousGapY) \<le> maxGapY \<and>
   minGapY = 130 \<and> maxGapY = 1015 / 2 \<and>
   MIN_PIPE_SHAFT_HEIGHT + SAFE_MARGIN \<le> topPipeHeight (fst (randomGapY rnd k previousGapY)) \<and>
   MIN_PIPE_SHAFT_HEIGHT + SAFE_MARGIN
     \<le> bottomPipeHeight (fst (randomGapY rnd k previousGapY))"
proof -
  have c: "130 \<le> fst (randomGapY rnd k previousGapY)"
          "fst (randomGapY rnd k previousGapY) \<le> 1015 / 2"
    using randomGapY_clamped [of rnd k previousGapY] by (simp_all add: gap_bounds)
  show ?thesis
    using c
    by (simp add: gap_bounds topPipeHeight_def bottomPipeHeight_def MIN_PIPE_SHAFT_HEIGHT_def
        SAFE_MARGIN_def ACTUAL_GROUND_Y_def SCREEN_HEIGHT_def FIXED_GROUND_HEIGHT_def
        PIPE_GAP_def)
qed

lemma sample_between:
  fixes r rmin rmax :: rat
  assumes "0 \<le> r" "r < 1" "rmin \<le> rmax"
  shows "of_int \<lfloor>rmin\<rfloor> \<le> (of_int \<lfloor>rmin + r * (rmax - rmin)\<rfloor> :: rat)"
    and "(of_int \<lfloor>rmin + r * (rmax - rmin)\<rfloor> :: rat) \<le> rmax"
proof -
  have "r * (rmax - rmin) \<le> 1 * (rmax - rmin)"
    using assms by (intro mult_right_mono) auto
  then have up: "rmin + r * (rmax - rmin) \<le> rmax" by simp
  have lo: "rmin \<le> rmin + r * (rmax - rmin)" using assms by simp
  show "of_int \<lfloor>rmin\<rfloor> \<le> (of_int \<lfloor>rmin + r * (rmax - rmin)\<rfloor> :: rat)"
    using lo by (simp add: floor_mono)
  have "(of_int \<lfloor>rmin + r * (rmax - rmin)\<rfloor> :: rat) \<le> rmin + r * (rmax - rmin)"
    by (rule of_int_floor_le)
  then show "(of_int \<lfloor>rmin + r * (rmax - rmin)\<rfloor> :: rat) \<le> rmax"
    using up by linarith
qed

lemma resample_bounds:
  assumes "unitStream rnd" "rmin \<le> rmax"
  shows "of_int \<lfloor>rmin\<rfloor> \<le> fst (resample rnd k rmin rmax prev a) \<and>
         fst (resample rnd k rmin rmax prev a) \<le> rmax \<and>
         k < snd (resample rnd k rmin rmax prev a) \<and>
         snd (resample rnd k rmin rmax prev a) \<le> k + 1 + (maxAttempts - 1 - a)"
  using assms
proof (induction rnd k rmin rmax prev a rule: resample.induct)
  case (1 rnd k rmin rmax previousGapY attempts)
  have r: "0 \<le> rnd k" "rnd k < 1" using "1.prems" by (simp_all add: unitStream_def)
  have sb: "of_int \<lfloor>rmin\<rfloor> \<le> candidateGap (rnd k) rmin rmax"
           "candidateGap (rnd k) rmin rmax \<le> rmax"
    using sample_between [OF r "1.prems"(2)] by (simp_all add: candidateGap_def)
  show ?case
  proof (cases "\<bar>candidateGap (rnd k) rmin rmax - previousGapY\<bar> < 40
                \<and> attempts + 1 < maxAttempts")
    case True
    have ih: "of_int \<lfloor>rmin\<rfloor> \<le> fst (resample rnd (k + 1) rmin rmax previousGapY (attempts + 1)) \<and>
         fst (resample rnd (k + 1) rmin rmax previousGapY (attempts + 1)) \<le> rmax \<and>
         k + 1 < snd (resample rnd (k + 1) rmin rmax previousGapY (attempts + 1)) \<and>
         snd (resample rnd (k + 1) rmin rmax previousGapY (attempts + 1))
           \<le> k + 1 + 1 + (maxAttempts - 1 - (attempts + 1))"
      using "1.IH" [OF refl refl True "1.prems"] .
    have eq: "resample rnd k rmin rmax previousGapY attempts
              = resample rnd (k + 1) rmin rmax previousGapY (attempts + 1)"
      using True by (subst resample.simps) (simp add: Let_def)
    show ?thesis using ih True unfolding eq by auto
  next
    case False
    have eq: "resample rnd k rmin rmax previousGapY attempts
              = (candidateGap (rnd k) rmin rmax, k + 1)"
      using False by (subst resample.simps) (auto simp add: Let_def)
    show ?thesis using sb unfolding eq by simp
  qed
qed

lemma unblocked:
  assumes "minGapY \<le> g" "g \<le> maxGapY"
  shows "minReachableY g \<le> g - 40 \<or> g + 40 \<le> maxReachableY g"
  using assms unfolding minReachableY_def maxReachableY_def gap_bounds delta_values
  by (simp add: min_def max_def)

lemma reachable_facts:
  assumes "minGapY \<le> g" "g \<le> maxGapY"
  shows "minGapY \<le> minReachableY g" "minReachableY g \<le> g" "g \<le> maxReachableY g"
        "maxReachableY g \<le> maxGapY"
  using assms unfolding minReachableY_def maxReachableY_def gap_bounds delta_values
  by (simp_all add: min_def max_def)

lemma floor_ge_min: "minGapY \<le> z \<Longrightarrow> minGapY \<le> of_int \<lfloor>z\<rfloor>"
proof -
  assume "minGapY \<le> z"
  then have "(130::int) \<le> \<lfloor>z\<rfloor>" by (simp add: gap_bounds le_floor_iff)
  then have "(of_int 130 :: rat) \<le> of_int \<lfloor>z\<rfloor>" by (simp only: of_int_le_iff)
  then show ?thesis by (simp add: gap_bounds)
qed

lemma constrainedGap_props:
  assumes u: "unitStream rnd" and lo: "minGapY \<le> g" and hi: "g \<le> maxGapY"
  shows "40 \<le> \<bar>fst (constrainedGap rnd k g) - g\<bar> \<and>
         minGapY \<le> fst (constrainedGap rnd k g) \<and> fst (constrainedGap rnd k g) \<le> maxGapY \<and>
         k + 1 < snd (constrainedGap rnd k g) \<and>
         snd (constrainedGap rnd k g) \<le> k + 1 + maxAttempts"
proof -
  note rf = reachable_facts [OF lo hi]
  define rmin where "rmin = (if rnd k < 1 / 10 then max (minReachableY g) (g - 30)
     else if rnd k < 4 / 10 then max (minReachableY g) (g - 60) else minReachableY g)"
  define rmax where "rmax = (if rnd k < 1 / 10 then min (maxReachableY g) (g + 30)
     else if rnd k < 4 / 10 then min (maxReachableY g) (g + 60) else maxReachableY g)"
  define t where "t = fst (resample rnd (k + 1) rmin rmax g 0)"
  define k' where "k' = snd (resample rnd (k + 1) rmin rmax g 0)"
  have range: "minGapY \<le> rmin" "rmin \<le> rmax" "rmax \<le> maxGapY"
    using rf by (auto simp add: rmin_def rmax_def)
  have rb: "of_int \<lfloor>rmin\<rfloor> \<le> t" "t \<le> rmax" "k + 1 < k'" "k' \<le> k + 1 + maxAttempts"
    using resample_bounds [OF u range(2), of "k + 1" g 0]
    by (simp_all add: t_def k'_def maxAttempts_def)
  have tlo: "minGapY \<le> t" using floor_ge_min [OF range(1)] rb(1) by linarith
  have thi: "t \<le> maxGapY" using rb(2) range(3) by linarith
  have cg: "constrainedGap rnd k g =
     (if \<bar>t - g\<bar> < 40
      then (if g - 40 \<ge> minReachableY g then (g - 40, k')
            else if g + 40 \<le> maxReachableY g then (g + 40, k')
            else if \<bar>minReachableY g - g\<bar> > \<bar>maxReachableY g - g\<bar>
            then (minReachableY g, k') else (maxReachableY g, k'))
      else (t, k'))"
    unfolding constrainedGap_def finalRange_def Let_def rmin_def rmax_def t_def k'_def
    by (cases "rnd k < 1 / 10"; cases "rnd k < 4 / 10") (simp_all only: if_True if_False split_beta fst_conv snd_conv)
  show ?thesis
  proof (cases "\<bar>t - g\<bar> < 40")
    case False
    then show ?thesis using tlo thi rb by (simp add: cg)
  next
    case True
    show ?thesis
    proof (cases "minReachableY g \<le> g - 40")
      case up: True
      then show ?thesis using True rf rb lo hi by (simp add: cg)
    next
      case nup: False
      then have down: "g + 40 \<le> maxReachableY g" using unblocked [OF lo hi] by simp
      then show ?thesis using True nup rf rb lo hi by (simp add: cg)
    qed
  qed
qed

lemma randomGapY_Some_props:
  assumes u: "unitStream rnd" and lo: "minGapY \<le> g" and hi: "g \<le> maxGapY"
  shows "randomGapY rnd k (Some g) = constrainedGap rnd k g"
proof -
  note cp = constrainedGap_props [OF u lo hi, of k]
  have "max minGapY (min maxGapY (fst (constrainedGap rnd k g))) = fst (constrainedGap rnd k g)"
    using cp by (simp add: max_def min_def)
  then show ?thesis by (simp add: randomGapY_def Let_def split_beta)
qed

lemma resample_first_far:
  assumes "\<forall>i<j. \<bar>candidateGap (rnd (k + i)) rmin rmax - g\<bar> < 40"
    and "40 \<le> \<bar>candidateGap (rnd (k + j)) rmin rmax - g\<bar>"
    and "a + j < maxAttempts"
  shows "resample rnd k rmin rmax g a = (candidateGap (rnd (k + j)) rmin rmax, k + j + 1)"
  using assms
proof (induction j arbitrary: k a)
  case 0
  then show ?case by (subst resample.simps) (simp add: Let_def)
next
  case (Suc j)
  have w: "\<bar>candidateGap (rnd k) rmin rmax - g\<bar> < 40" using Suc.prems(1) [rule_format, of 0] by simp
  have a: "a + 1 < maxAttempts" using Suc.prems(3) by simp
  have rest: "\<forall>i<j. \<bar>candidateGap (rnd (k + 1 + i)) rmin rmax - g\<bar> < 40"
    using Suc.prems(1) by (auto simp add: less_Suc_eq_0_disj)
  have far: "40 \<le> \<bar>candidateGap (rnd (k + 1 + j)) rmin rmax - g\<bar>" using Suc.prems(2) by simp
  have "resample rnd k rmin rmax g a = resample rnd (k + 1) rmin rmax g (a + 1)"
    using w a by (subst resample.simps) (simp add: Let_def)
  also have "\<dots> = (candidateGap (rnd (k + 1 + j)) rmin rmax, k + 1 + j + 1)"
    using Suc.IH [OF rest far] Suc.prems(3) by simp
  finally show ?case by simp
qed

lemma resample_exhausted:
  assumes "\<forall>i\<le>n. \<bar>candidateGap (rnd (k + i)) rmin rmax - g\<bar> < 40"
    and "a + n + 1 = maxAttempts"
  shows "resample rnd k rmin rmax g a = (candidateGap (rnd (k + n)) rmin rmax, k + n + 1)"
  using assms
proof (induction n arbitrary: k a)
  case 0
  then show ?case by (subst resample.simps) (simp add: Let_def)
next
  case (Suc n)
  have w: "\<bar>candidateGap (rnd k) rmin rmax - g\<bar> < 40" using Suc.prems(1) [rule_format, of 0] by simp
  have a: "a + 1 < maxAttempts" using Suc.prems(2) by simp
  have rest: "\<forall>i\<le>n. \<bar>candidateGap (rnd (k + 1 + i)) rmin rmax - g\<bar> < 40"
  proof (intro allI impI)
    fix i assume "i \<le> n"
    then show "\<bar>candidateGap (rnd (k + 1 + i)) rmin rmax - g\<bar> < 40"
      using Suc.prems(1) [rule_format, of "Suc i"] by simp
  qed
  have "resample rnd k rmin rmax g a = resample rnd (k + 1) rmin rmax g (a + 1)"
    using w a by (subst resample.simps) (simp add: Let_def)
  also have "\<dots> = (candidateGap (rnd (k + 1 + n)) rmin rmax, k + 1 + n + 1)"
    using Suc.IH [OF rest] Suc.prems(2) by simp
  finally show ?case by simp
qed

lemma constrainedGap_first_far:
  assumes "\<forall>i<j. \<bar>candidateGap (rnd (k + 1 + i)) (fst (finalRange (rnd k) g))
                      (snd (finalRange (rnd k) g)) - g\<bar> < 40"
    and "40 \<le> \<bar>candidateGap (rnd (k + 1 + j)) (fst (finalRange (rnd k) g))
                      (snd (finalRange (rnd k) g)) - g\<bar>"
    and "j < maxAttempts"
  shows "constrainedGap rnd k g
           = (candidateGap (rnd (k + 1 + j)) (fst (finalRange (rnd k) g))
                (snd (finalRange (rnd k) g)), k + 2 + j)"
proof -
  have "resample rnd (k + 1) (fst (finalRange (rnd k) g)) (snd (finalRange (rnd k) g)) g 0
        = (candidateGap (rnd (k + 1 + j)) (fst (finalRange (rnd k) g))
             (snd (finalRange (rnd k) g)), k + 1 + j + 1)"
    using resample_first_far [OF assms(1,2), of 0] assms(3) by simp
  then show ?thesis using assms(2) by (simp add: constrainedGap_def Let_def split_beta)
qed

lemma constrainedGap_exhausted:
  assumes "\<forall>i<maxAttempts. \<bar>candidateGap (rnd (k + 1 + i)) (fst (finalRange (rnd k) g))
                      (snd (finalRange (rnd k) g)) - g\<bar> < 40"
    and lo: "minGapY \<le> g" and hi: "g \<le> maxGapY"
  shows "constrainedGap rnd k g
           = (if minReachableY g \<le> g - 40 then g - 40 else g + 40, k + 1 + maxAttempts)"
proof -
  have all: "\<forall>i\<le>19. \<bar>candidateGap (rnd (k + 1 + i)) (fst (finalRange (rnd k) g))
                      (snd (finalRange (rnd k) g)) - g\<bar> < 40"
    using assms(1) by (simp add: maxAttempts_def)
  have r: "resample rnd (Suc k) (fst (finalRange (rnd k) g)) (snd (finalRange (rnd k) g)) g 0
        = (candidateGap (rnd (20 + k)) (fst (finalRange (rnd k) g))
             (snd (finalRange (rnd k) g)), 21 + k)"
    using resample_exhausted [OF all, of 0] by (simp add: maxAttempts_def add.commute)
  have w: "\<bar>candidateGap (rnd (20 + k)) (fst (finalRange (rnd k) g))
             (snd (finalRange (rnd k) g)) - g\<bar> < 40"
    using all [rule_format, of 19] by (simp add: add.commute)
  have down: "\<not> minReachableY g \<le> g - 40 \<Longrightarrow> g + 40 \<le> maxReachableY g"
    using unblocked [OF lo hi] by simp
  show ?thesis
    using w down by (simp add: constrainedGap_def Let_def split_beta r maxAttempts_def)
qed

text \<open>
  Claim C2. For a previous gap \<open>g\<close> in the safe range and draws in \<open>[0, 1)\<close>, the new gap
  differs from \<open>g\<close> by at least 40, and the excepted case (both \<open>g - 40\<close> below the reachable
  minimum and \<open>g + 40\<close> above the reachable maximum) does not occur with the constants of the
  source. The generator gets there by bounded resampling and then forcing: after one draw for
  the tier it draws candidates from the tier's range and returns the first of the at most
  \<open>maxAttempts = 20\<close> candidates that is 40 or more away from \<open>g\<close>, having made exactly the
  draws up to that candidate; when all 20 candidates are closer than 40 it has made 21 draws
  and returns \<open>g - 40\<close> if that is reachable and \<open>g + 40\<close> otherwise.
\<close>

theorem randomGapY_min_delta:
  assumes "unitStream rnd" and "minGapY \<le> g" and "g \<le> maxGapY"
  shows "40 \<le> \<bar>fst (randomGapY rnd k (Some g)) - g\<bar> \<and>
         \<not> (g - 40 < minReachableY g \<and> maxReachableY g < g + 40) \<and>
         snd (randomGapY rnd k (Some g)) \<le> k + 1 + maxAttempts \<and>
         (\<forall>j<maxAttempts.
            (\<forall>i<j. \<bar>candidateGap (rnd (k + 1 + i)) (fst (finalRange (rnd k) g))
                       (snd (finalRange (rnd k) g)) - g\<bar> < 40) \<and>
            40 \<le> \<bar>candidateGap (rnd (k + 1 + j)) (fst (finalRange (rnd k) g))
                       (snd (finalRange (rnd k) g)) - g\<bar> \<longrightarrow>
            randomGapY rnd k (Some g)
              = (candidateGap (rnd (k + 1 + j)) (fst (finalRange (rnd k) g))
                   (snd (finalRange (rnd k) g)), k + 2 + j)) \<and>
         ((\<forall>i<maxAttempts. \<bar>candidateGap (rnd (k + 1 + i)) (fst (finalRange (rnd k) g))
                       (snd (finalRange (rnd k) g)) - g\<bar> < 40) \<longrightarrow>
            randomGapY rnd k (Some g)
              = (if minReachableY g \<le> g - 40 then g - 40 else g + 40, k + 1 + maxAttempts))"
proof -
  note eq = randomGapY_Some_props [OF assms, of k]
  have a: "40 \<le> \<bar>fst (randomGapY rnd k (Some g)) - g\<bar> \<and>
         \<not> (g - 40 < minReachableY g \<and> maxReachableY g < g + 40) \<and>
         snd (randomGapY rnd k (Some g)) \<le> k + 1 + maxAttempts"
    using constrainedGap_props [OF assms, of k] unblocked [OF assms(2,3)]
    by (auto simp add: eq)
  have b: "\<forall>j<maxAttempts.
            (\<forall>i<j. \<bar>candidateGap (rnd (k + 1 + i)) (fst (finalRange (rnd k) g))
                       (snd (finalRange (rnd k) g)) - g\<bar> < 40) \<and>
            40 \<le> \<bar>candidateGap (rnd (k + 1 + j)) (fst (finalRange (rnd k) g))
                       (snd (finalRange (rnd k) g)) - g\<bar> \<longrightarrow>
            randomGapY rnd k (Some g)
              = (candidateGap (rnd (k + 1 + j)) (fst (finalRange (rnd k) g))
                   (snd (finalRange (rnd k) g)), k + 2 + j)"
    unfolding eq using constrainedGap_first_far [of _ rnd k g] by blast
  have c: "(\<forall>i<maxAttempts. \<bar>candidateGap (rnd (k + 1 + i)) (fst (finalRange (rnd k) g))
                       (snd (finalRange (rnd k) g)) - g\<bar> < 40) \<longrightarrow>
            randomGapY rnd k (Some g)
              = (if minReachableY g \<le> g - 40 then g - 40 else g + 40, k + 1 + maxAttempts)"
    unfolding eq using constrainedGap_exhausted [OF _ assms(2,3), of rnd k] by blast
  show ?thesis using a b c by blast
qed

lemma sample_range_318: "finalRange (1 / 2) 318 = (223, 418)"
  by (simp add: finalRange_def minReachableY_def maxReachableY_def delta_values gap_bounds)

theorem randomGapY_min_delta_witness:
  "unitStream sampleStream \<and> unitStream (\<lambda>k. 1 / 2) \<and> minGapY \<le> 318 \<and> 318 \<le> maxGapY \<and>
   \<bar>candidateGap (sampleStream 1) 223 418 - 318\<bar> < 40 \<and>
   40 \<le> \<bar>candidateGap (sampleStream 2) 223 418 - 318\<bar> \<and>
   randomGapY sampleStream 0 (Some 318) = (223, 3) \<and>
   \<bar>candidateGap (1 / 2) 223 418 - 318\<bar> < 40 \<and>
   randomGapY (\<lambda>k. 1 / 2) 0 (Some 318) = (278, 21)"
proof -
  have h1: "unitStream sampleStream" and h1': "unitStream (\<lambda>k. 1 / 2)"
    by (simp_all add: unitStream_def sampleStream_def)
  have h2: "minGapY \<le> 318" and h3: "318 \<le> maxGapY" by (simp_all add: gap_bounds)
  have c0: "\<bar>candidateGap (sampleStream 1) 223 418 - 318\<bar> < 40"
    and c1: "40 \<le> \<bar>candidateGap (sampleStream 2) 223 418 - 318\<bar>"
    and ch: "\<bar>candidateGap (1 / 2) 223 418 - 318\<bar> < 40"
    by (simp_all add: candidateGap_def sampleStream_def Let_def floor_rat_numeral_div)
  have s0: "sampleStream 0 = 1 / 2" by (simp add: sampleStream_def)
  have r1: "randomGapY sampleStream 0 (Some 318) = (223, 3)"
  proof -
    have "(\<forall>i<1. \<bar>candidateGap (sampleStream (0 + 1 + i)) (fst (finalRange (sampleStream 0) 318))
                       (snd (finalRange (sampleStream 0) 318)) - 318\<bar> < 40) \<and>
            40 \<le> \<bar>candidateGap (sampleStream (0 + 1 + 1)) (fst (finalRange (sampleStream 0) 318))
                       (snd (finalRange (sampleStream 0) 318)) - 318\<bar>"
      by (simp add: s0 sample_range_318 candidateGap_def sampleStream_def Let_def
          floor_rat_numeral_div)
    moreover have "(1::nat) < maxAttempts" by (simp add: maxAttempts_def)
    ultimately have "randomGapY sampleStream 0 (Some 318)
        = (candidateGap (sampleStream (0 + 1 + 1)) (fst (finalRange (sampleStream 0) 318))
                   (snd (finalRange (sampleStream 0) 318)), 0 + 2 + 1)"
      using randomGapY_min_delta [OF h1 h2 h3, of 0] by blast
    then show ?thesis
      by (simp add: s0 sample_range_318 candidateGap_def sampleStream_def Let_def)
  qed
  have r2: "randomGapY (\<lambda>k. 1 / 2) 0 (Some 318) = (278, 21)"
  proof -
    have "\<forall>i<maxAttempts. \<bar>candidateGap ((\<lambda>k. 1 / 2) (0 + 1 + i))
               (fst (finalRange ((\<lambda>k. 1 / 2) 0) 318))
               (snd (finalRange ((\<lambda>k. 1 / 2) 0) 318)) - 318\<bar> < 40"
      using ch by (simp add: sample_range_318)
    then have "randomGapY (\<lambda>k. 1 / 2) 0 (Some 318)
        = (if minReachableY 318 \<le> 318 - 40 then 318 - 40 else 318 + 40, 0 + 1 + maxAttempts)"
      using randomGapY_min_delta [OF h1' h2 h3, of 0] by blast
    then show ?thesis
      by (simp add: minReachableY_def delta_values gap_bounds maxAttempts_def)
  qed
  show ?thesis using h1 h1' h2 h3 c0 c1 ch r1 r2 by blast
qed

section \<open>Properties of the tick handler\<close>

subsection \<open>What each phase of the tick leaves alone\<close>

lemma updateFart_keeps [simp]:
  "gameState (updateFart step s) = gameState s"
  "plushpepe (updateFart step s) = plushpepe s"
  "pipes (updateFart step s) = pipes s"
  "globalScore (updateFart step s) = globalScore s"
  "highScore (updateFart step s) = highScore s"
  "storedBest (updateFart step s) = storedBest s"
  "draws (updateFart step s) = draws s"
  by (simp_all add: updateFart_def)

lemma advance_keeps [simp]:
  "gameState (advance step s) = gameState s"
  "plushpepe (advance step s) = integrate step (plushpepe s)"
  "pipes (advance step s) = pipes s"
  "globalScore (advance step s) = globalScore s"
  "highScore (advance step s) = highScore s"
  "storedBest (advance step s) = storedBest s"
  "draws (advance step s) = draws s"
  by (simp_all add: advance_def)

lemma updateClouds_keeps [simp]:
  "gameState (updateClouds rnd step s) = gameState s"
  "plushpepe (updateClouds rnd step s) = plushpepe s"
  "pipes (updateClouds rnd step s) = pipes s"
  "globalScore (updateClouds rnd step s) = globalScore s"
  "highScore (updateClouds rnd step s) = highScore s"
  "storedBest (updateClouds rnd step s) = storedBest s"
  by (simp_all add: updateClouds_def Let_def)

lemma updatePipes_keeps [simp]:
  "gameState (updatePipes rnd step s) = gameState s"
  "plushpepe (updatePipes rnd step s) = plushpepe s"
  "highScore (updatePipes rnd step s) = highScore s"
  "storedBest (updatePipes rnd step s) = storedBest s"
  by (simp_all add: updatePipes_def split: prod.splits)

lemma handleGameOver_keeps [simp]:
  "gameState (handleGameOver s) = Gameover"
  "plushpepe (handleGameOver s) = plushpepe s"
  "pipes (handleGameOver s) = pipes s"
  "globalScore (handleGameOver s) = globalScore s"
  "draws (handleGameOver s) = draws s"
  by (simp_all add: handleGameOver_def Let_def)

lemma collision_fold:
  "plushpepe (foldl (\<lambda>t p. if pipeCollision (plushpepe t) p then handleGameOver t else t) s ps)
     = plushpepe s \<and>
   pipes (foldl (\<lambda>t p. if pipeCollision (plushpepe t) p then handleGameOver t else t) s ps)
     = pipes s \<and>
   globalScore (foldl (\<lambda>t p. if pipeCollision (plushpepe t) p then handleGameOver t else t) s ps)
     = globalScore s \<and>
   (gameState (foldl (\<lambda>t p. if pipeCollision (plushpepe t) p then handleGameOver t else t) s ps)
      = Gameover) = (gameState s = Gameover \<or> list_ex (pipeCollision (plushpepe s)) ps) \<and>
   (\<not> list_ex (pipeCollision (plushpepe s)) ps \<longrightarrow>
      foldl (\<lambda>t p. if pipeCollision (plushpepe t) p then handleGameOver t else t) s ps = s)"
  by (induction ps arbitrary: s) auto

lemma pipeCollisions_keeps [simp]:
  "plushpepe (pipeCollisions s) = plushpepe s"
  "pipes (pipeCollisions s) = pipes s"
  "globalScore (pipeCollisions s) = globalScore s"
  by (simp_all add: pipeCollisions_def collision_fold)

lemma pipeCollisions_state:
  "(gameState (pipeCollisions s) = Gameover)
     = (gameState s = Gameover \<or> list_ex (pipeCollision (plushpepe s)) (pipes s))"
  by (simp add: pipeCollisions_def collision_fold)

lemma update_body:
  "gameState s = Playing \<Longrightarrow> plushpepe (update rnd step s) = integrate step (plushpepe s)"
  by (simp add: update_def Let_def)

subsection \<open>The integrator on finite values\<close>

lemma integrate_finite:
  assumes "vel b = Fin v" and "body_y b = Fin p"
  shows "integrate step b =
           b\<lparr>body_y := Fin (p + min (v + GRAVITY * step) MAX_FALL_SPEED * step),
             vel := Fin (min (v + GRAVITY * step) MAX_FALL_SPEED),
             rot := Fin (max (- 30) (min 90 (min (v + GRAVITY * step) MAX_FALL_SPEED * 7)))\<rparr>"
  using assms by (simp add: integrate_def Let_def jgt_def jmax_def jmin_def min_def max_def)

lemma vel_integrate:
  "vel b = Fin w \<Longrightarrow> vel (integrate step b) = Fin (min (w + GRAVITY * step) MAX_FALL_SPEED)"
  by (simp add: integrate_def Let_def jgt_def min_def)

lemma vel_iterate:
  assumes "vel b = Fin v" and "v \<le> MAX_FALL_SPEED" and "0 \<le> step"
  shows "vel ((integrate step ^^ n) b) = Fin (min (v + of_nat n * (GRAVITY * step)) MAX_FALL_SPEED)"
proof (induction n)
  case 0
  show ?case using assms by simp
next
  case (Suc n)
  have g: "0 \<le> GRAVITY * step" using assms(3) by (simp add: GRAVITY_def)
  have "min (min (v + of_nat n * (GRAVITY * step)) MAX_FALL_SPEED + GRAVITY * step) MAX_FALL_SPEED
        = min (v + of_nat (Suc n) * (GRAVITY * step)) MAX_FALL_SPEED"
    using g by (simp add: min_def algebra_simps)
  then show ?case using vel_integrate [OF Suc.IH, of step] by simp
qed

lemma terminal_velocity:
  assumes b: "vel b = Fin v" and v: "v \<le> MAX_FALL_SPEED" and step: "0 < step"
  shows "\<exists>N. (\<forall>n<N. jlt (vel ((integrate step ^^ n) b)) (vel ((integrate step ^^ Suc n) b))) \<and>
             (\<forall>n\<ge>N. vel ((integrate step ^^ n) b) = Fin MAX_FALL_SPEED)"
proof -
  define g where "g = GRAVITY * step"
  have g: "0 < g" using step by (simp add: g_def GRAVITY_def)
  obtain m :: nat where m: "MAX_FALL_SPEED - v < of_nat m * g"
    using ex_less_of_nat_mult [OF g] by blast
  define N where "N = (LEAST n. MAX_FALL_SPEED \<le> v + of_nat n * g)"
  have ex: "MAX_FALL_SPEED \<le> v + of_nat m * g" using m by linarith
  have atN: "MAX_FALL_SPEED \<le> v + of_nat N * g"
    unfolding N_def by (rule LeastI [of _ m]) (rule ex)
  have below: "v + of_nat n * g < MAX_FALL_SPEED" if "n < N" for n
    using not_less_Least [of n "\<lambda>n. MAX_FALL_SPEED \<le> v + of_nat n * g"] that
    unfolding N_def by auto
  note vi = vel_iterate [OF b v less_imp_le [OF step], folded g_def]
  have inc: "jlt (vel ((integrate step ^^ n) b)) (vel ((integrate step ^^ Suc n) b))"
    if "n < N" for n
  proof -
    have "v + of_nat n * g < v + of_nat (Suc n) * g" using g by (simp add: algebra_simps)
    then show ?thesis using below [OF that] unfolding vi by (simp add: min_def)
  qed
  have const: "vel ((integrate step ^^ n) b) = Fin MAX_FALL_SPEED" if "N \<le> n" for n
  proof -
    have "of_nat N * g \<le> of_nat n * g" using that g by (simp add: mult_right_mono)
    then have "MAX_FALL_SPEED \<le> v + of_nat n * g" using atN by linarith
    then show ?thesis unfolding vi by (simp add: min_def)
  qed
  show ?thesis using inc const by blast
qed


text \<open>
  Claim C3. On a tick in the playing state the Body that \<open>update\<close> leaves is the one computed
  in this order: gravity is added to the velocity, the velocity is capped at
  \<open>MAX_FALL_SPEED\<close>, the capped velocity times the step is added to the position, and the
  rotation is the capped velocity times 7 clamped to \<open>[-30, 90]\<close>; the rotation feeds nothing.
  For a positive step and a velocity not above the cap, iterating the integrator makes the
  velocity strictly larger on every step up to some step \<open>N\<close>, and equal to
  \<open>MAX_FALL_SPEED\<close> from step \<open>N\<close> on.
\<close>

theorem integrator_order:
  assumes "gameState s = Playing" and "vel (plushpepe s) = Fin v"
    and "body_y (plushpepe s) = Fin p"
  shows "plushpepe (update rnd step s) =
           (plushpepe s)\<lparr>body_y := Fin (p + min (v + GRAVITY * step) MAX_FALL_SPEED * step),
                          vel := Fin (min (v + GRAVITY * step) MAX_FALL_SPEED),
                          rot := Fin (max (- 30)
                                   (min 90 (min (v + GRAVITY * step) MAX_FALL_SPEED * 7)))\<rparr> \<and>
         (0 < step \<longrightarrow> v \<le> MAX_FALL_SPEED \<longrightarrow>
            (\<exists>N. (\<forall>n<N. jlt (vel ((integrate step ^^ n) (plushpepe s)))
                           (vel ((integrate step ^^ Suc n) (plushpepe s)))) \<and>
                 (\<forall>n\<ge>N. vel ((integrate step ^^ n) (plushpepe s)) = Fin MAX_FALL_SPEED)))"
  using update_body [OF assms(1), of rnd step] integrate_finite [OF assms(2,3), of step]
    terminal_velocity [OF assms(2), of step]
  by simp

theorem integrator_order_witness:
  "gameState (sampleGame Playing spawnBody samplePipes) = Playing \<and>
   vel (plushpepe (sampleGame Playing spawnBody samplePipes)) = Fin 0 \<and>
   body_y (plushpepe (sampleGame Playing spawnBody samplePipes)) = Fin 412 \<and>
   (0::rat) < 1 \<and> 0 \<le> MAX_FALL_SPEED \<and>
   plushpepe (update sampleStream 1 (sampleGame Playing spawnBody samplePipes))
     = \<lparr>body_y = Fin (2062 / 5), vel = Fin (2 / 5), rot = Fin (14 / 5)\<rparr> \<and>
   (\<exists>N. (\<forall>n<N. jlt (vel ((integrate 1 ^^ n)
                          (plushpepe (sampleGame Playing spawnBody samplePipes))))
                   (vel ((integrate 1 ^^ Suc n)
                          (plushpepe (sampleGame Playing spawnBody samplePipes))))) \<and>
        (\<forall>n\<ge>N. vel ((integrate 1 ^^ n)
                       (plushpepe (sampleGame Playing spawnBody samplePipes)))
                  = Fin MAX_FALL_SPEED))"
proof -
  have h1: "gameState (sampleGame Playing spawnBody samplePipes) = Playing"
    by (simp add: sampleGame_def)
  have h2: "vel (plushpepe (sampleGame Playing spawnBody samplePipes)) = Fin 0"
    by (simp add: sampleGame_def spawnBody_def)
  have h3: "body_y (plushpepe (sampleGame Playing spawnBody samplePipes)) = Fin 412"
    by (simp add: sampleGame_def spawnBody_def V_HEIGHT_def)
  have h4: "(0::rat) < 1" and h5: "0 \<le> MAX_FALL_SPEED" by (simp_all add: MAX_FALL_SPEED_def)
  have b: "plushpepe (sampleGame Playing spawnBody samplePipes)
           = \<lparr>body_y = Fin 412, vel = Fin 0, rot = Fin 0\<rparr>"
    by (simp add: sampleGame_def spawnBody_def V_HEIGHT_def)
  note t = integrator_order [OF h1 h2 h3, of sampleStream 1]
  have body: "plushpepe (update sampleStream 1 (sampleGame Playing spawnBody samplePipes))
     = \<lparr>body_y = Fin (2062 / 5), vel = Fin (2 / 5), rot = Fin (14 / 5)\<rparr>"
    using t by (simp add: b GRAVITY_def MAX_FALL_SPEED_def)
  show ?thesis using t h1 h2 h3 h4 h5 body by blast
qed

lemma resetGame_fields:
  "plushpepe (resetGame rnd s) = spawnBody"
  "gameState (resetGame rnd s) = Ready"
  "globalScore (resetGame rnd s) = 0"
  "highScore (resetGame rnd s) = highScore s"
  "storedBest (resetGame rnd s) = storedBest s"
  by (simp_all add: resetGame_def Let_def split_beta)

text \<open>
  Claim C4, amended. In the ready and the playing state a jump overwrites the velocity with
  \<open>JUMP_VELOCITY\<close>, whatever it was, and the game is playing afterwards. In the game-over
  state the same input resets the game instead: the Body is back at the spawn position with
  velocity 0 and the state is ready. The only other writer of the velocity is the integrator,
  on playing ticks; a tick in another state leaves it alone.
\<close>

theorem flap_sets_jump_velocity:
  "(gameState s \<noteq> Gameover \<longrightarrow>
      vel (plushpepe (flap rnd s)) = Fin JUMP_VELOCITY \<and> gameState (flap rnd s) = Playing) \<and>
   (gameState s = Gameover \<longrightarrow>
      plushpepe (flap rnd s) = spawnBody \<and> vel (plushpepe (flap rnd s)) = Fin 0 \<and>
      gameState (flap rnd s) = Ready) \<and>
   vel (plushpepe (update rnd step s))
     = (if gameState s = Playing then vel (integrate step (plushpepe s)) else vel (plushpepe s))"
proof -
  have t: "vel (plushpepe (update rnd step s))
     = (if gameState s = Playing then vel (integrate step (plushpepe s)) else vel (plushpepe s))"
    by (simp add: update_body) (simp add: update_def Let_def)
  show ?thesis
    using t by (cases "gameState s") (simp_all add: flap_def resetGame_fields spawnBody_def)
qed

theorem flap_sets_jump_velocity_witness:
  "gameState (sampleGame Playing \<lparr>body_y = Fin 300, vel = Fin 12, rot = Fin 84\<rparr> samplePipes)
     \<noteq> Gameover \<and>
   vel (plushpepe (flap sampleStream
     (sampleGame Playing \<lparr>body_y = Fin 300, vel = Fin 12, rot = Fin 84\<rparr> samplePipes)))
     = Fin (- (13 / 2)) \<and>
   gameState (sampleGame Gameover \<lparr>body_y = Fin 752, vel = Fin 12, rot = Fin 84\<rparr> samplePipes)
     = Gameover \<and>
   plushpepe (flap sampleStream
     (sampleGame Gameover \<lparr>body_y = Fin 752, vel = Fin 12, rot = Fin 84\<rparr> samplePipes))
     = \<lparr>body_y = Fin 412, vel = Fin 0, rot = Fin 0\<rparr>"
  using flap_sets_jump_velocity
    [of "sampleGame Playing \<lparr>body_y = Fin 300, vel = Fin 12, rot = Fin 84\<rparr> samplePipes"
        sampleStream]
    flap_sets_jump_velocity
    [of "sampleGame Gameover \<lparr>body_y = Fin 752, vel = Fin 12, rot = Fin 84\<rparr> samplePipes"
        sampleStream]
  by (simp add: sampleGame_def JUMP_VELOCITY_def spawnBody_def V_HEIGHT_def)

text \<open>
  The claim as written (the velocity is \<open>JUMP_VELOCITY\<close> after a jump in every game state)
  fails in the game-over state.
\<close>

theorem flap_gameover_counterexample:
  "gameState (sampleGame Gameover \<lparr>body_y = Fin 752, vel = Fin 12, rot = Fin 84\<rparr> samplePipes)
     = Gameover \<and>
   vel (plushpepe (flap sampleStream
     (sampleGame Gameover \<lparr>body_y = Fin 752, vel = Fin 12, rot = Fin 84\<rparr> samplePipes)))
     \<noteq> Fin JUMP_VELOCITY"
  by (simp add: flap_def sampleGame_def resetGame_fields spawnBody_def JUMP_VELOCITY_def)

text \<open>
  The cap is an invariant: in every state reached from the initial one by ticks and inputs the
  velocity is finite and at most \<open>MAX_FALL_SPEED\<close>.
\<close>

lemma update_velocity_capped:
  assumes "\<exists>v. vel (plushpepe s) = Fin v \<and> v \<le> MAX_FALL_SPEED"
  shows "\<exists>v. vel (plushpepe (update rnd step s)) = Fin v \<and> v \<le> MAX_FALL_SPEED"
proof (cases "gameState s = Playing")
  case True
  obtain v where v: "vel (plushpepe s) = Fin v" using assms by blast
  show ?thesis
    using update_body [OF True, of rnd step] vel_integrate [OF v, of step] by simp
next
  case False
  then have "plushpepe (update rnd step s) = plushpepe s" by (simp add: update_def Let_def)
  then show ?thesis using assms by simp
qed

lemma flap_velocity_capped:
  "\<exists>v. vel (plushpepe (flap rnd s)) = Fin v \<and> v \<le> MAX_FALL_SPEED"
  by (cases "gameState s")
     (simp_all add: flap_def resetGame_fields spawnBody_def JUMP_VELOCITY_def MAX_FALL_SPEED_def)

lemma reachable_velocity_capped:
  "\<exists>v. vel (plushpepe (run rnd evs (initialGame rnd saved))) = Fin v \<and> v \<le> MAX_FALL_SPEED"
proof -
  have step: "\<exists>v. vel (plushpepe (applyEvent rnd s e)) = Fin v \<and> v \<le> MAX_FALL_SPEED"
    if "\<exists>v. vel (plushpepe s) = Fin v \<and> v \<le> MAX_FALL_SPEED" for s e
    using that by (cases e) (simp_all add: update_velocity_capped flap_velocity_capped)
  have all: "\<exists>v. vel (plushpepe (foldl (applyEvent rnd) s evs)) = Fin v \<and> v \<le> MAX_FALL_SPEED"
    if "\<exists>v. vel (plushpepe s) = Fin v \<and> v \<le> MAX_FALL_SPEED" for s
    using that
  proof (induction evs arbitrary: s)
    case Nil
    then show ?case by simp
  next
    case (Cons e evs)
    show ?case using Cons.IH [OF step [OF Cons.prems]] by simp
  qed
  have "\<exists>v. vel (plushpepe (initialGame rnd saved)) = Fin v \<and> v \<le> MAX_FALL_SPEED"
    by (simp add: initialGame_def split_beta spawnBody_def MAX_FALL_SPEED_def)
  then show ?thesis unfolding run_def by (rule all)
qed

subsection \<open>The two hitboxes\<close>

lemma band_values:
  "plushpepeTop (Fin y) = Fin (y + 24)" "plushpepeBottom (Fin y) = Fin (y + 72)"
  "groundCollision (Fin y) = (800 \<le> y + 48)"
  by (auto simp add: plushpepeTop_def plushpepeBottom_def groundCollision_def hitboxOffsetY_def
      PLUSHPEPE_SIZE_def PLUSHPEPE_HITBOX_def V_HEIGHT_def FIXED_GROUND_HEIGHT_def jge_def Let_def)

lemma pipeCollision_finite:
  assumes "body_y b = Fin y"
  shows "pipeCollision b p =
           (pipe_x p + 2 < 232 \<and> 184 < pipe_x p + PIPE_WIDTH - 2 \<and>
            (0 < y + 72 \<and> y + 24 < gapY p - 2 \<or>
             gapY p + PIPE_GAP + 2 < y + 72 \<and> y + 24 < 800))"
  using assms
  by (auto simp add: pipeCollision_def getPipeCollisionBounds_def plushpepeLeft_def
      plushpepeRight_def plushpepeTop_def plushpepeBottom_def hitboxOffsetX_def hitboxOffsetY_def
      jgt_def Let_def PLUSHPEPE_X_def PLUSHPEPE_SIZE_def PLUSHPEPE_HITBOX_def V_HEIGHT_def
      FIXED_GROUND_HEIGHT_def)

text \<open>
  Claim C10. The two tests of one tick read different boxes of the same Body. The ground test
  of \<open>update\<close> reads the top-left position plus the 48px hitbox size: a playing tick whose
  integration ends at \<open>y\<close> ends the game there exactly when \<open>y + 48 \<ge> 800\<close>. The pipe test
  reads the box centred in the 96px sprite, from \<open>y + 24\<close> to \<open>y + 72\<close>, and 184 to 232
  across: it fires on a pipe exactly when that box overlaps the top pipe (down to
  \<open>gapY - 2\<close>) or the bottom pipe (from \<open>gapY + PIPE_GAP + 2\<close> to 800). So for every
  position \<open>y\<close> with \<open>728 \<le> y < 752\<close> the bottom edge of the pipe hitbox is at or below the
  ground line and the ground test does not fire: the tick goes on to the cloud, pipe and
  pipe-collision phases.
\<close>

theorem hitbox_mismatch:
  "groundCollision (Fin y) = (800 \<le> y + 48) \<and>
   plushpepeTop (Fin y) = Fin (y + 24) \<and> plushpepeBottom (Fin y) = Fin (y + 72) \<and>
   (body_y b = Fin y \<longrightarrow>
      pipeCollision b p =
        (pipe_x p + 2 < 232 \<and> 184 < pipe_x p + PIPE_WIDTH - 2 \<and>
         (0 < y + 72 \<and> y + 24 < gapY p - 2 \<or>
          gapY p + PIPE_GAP + 2 < y + 72 \<and> y + 24 < 800))) \<and>
   (gameState s = Playing \<and> body_y (integrate step (plushpepe s)) = Fin y \<and> 800 \<le> y + 48
      \<longrightarrow> update rnd step s = handleGameOver (advance step (updateFart step s))) \<and>
   (728 \<le> y \<and> y < 752 \<longrightarrow>
      jge (plushpepeBottom (Fin y)) (Fin (V_HEIGHT - FIXED_GROUND_HEIGHT)) \<and>
      \<not> groundCollision (Fin y) \<and>
      (gameState s = Playing \<and> body_y (integrate step (plushpepe s)) = Fin y \<longrightarrow>
         update rnd step s
           = pipeCollisions (updatePipes rnd step (updateClouds rnd step
               (advance step (updateFart step s))))))"
proof -
  have tick: "update rnd step s
           = pipeCollisions (updatePipes rnd step (updateClouds rnd step
               (advance step (updateFart step s))))"
    if "728 \<le> y" "y < 752" "gameState s = Playing"
       "body_y (integrate step (plushpepe s)) = Fin y"
    using that by (simp add: update_def Let_def band_values ceilingCollision_def)
  have ground: "update rnd step s = handleGameOver (advance step (updateFart step s))"
    if "gameState s = Playing" "body_y (integrate step (plushpepe s)) = Fin y" "800 \<le> y + 48"
    using that by (simp add: update_def Let_def band_values)
  have pipe: "pipeCollision b p =
        (pipe_x p + 2 < 232 \<and> 184 < pipe_x p + PIPE_WIDTH - 2 \<and>
         (0 < y + 72 \<and> y + 24 < gapY p - 2 \<or>
          gapY p + PIPE_GAP + 2 < y + 72 \<and> y + 24 < 800))"
    if "body_y b = Fin y"
    using that by (rule pipeCollision_finite)
  have band: "jge (plushpepeBottom (Fin y)) (Fin (V_HEIGHT - FIXED_GROUND_HEIGHT)) \<and>
      \<not> groundCollision (Fin y)"
    if "728 \<le> y" "y < 752"
    using that by (auto simp add: band_values jge_def V_HEIGHT_def FIXED_GROUND_HEIGHT_def)
  show ?thesis
    using tick ground pipe band by (simp add: band_values)
qed

theorem hitbox_mismatch_witness:
  "(728::rat) \<le> 740 \<and> (740::rat) < 752 \<and>
   gameState (sampleGame Playing \<lparr>body_y = Fin 728, vel = Fin 12, rot = Fin 84\<rparr> samplePipes)
     = Playing \<and>
   body_y (integrate 1 (plushpepe
     (sampleGame Playing \<lparr>body_y = Fin 728, vel = Fin 12, rot = Fin 84\<rparr> samplePipes)))
     = Fin 740 \<and>
   jge (plushpepeBottom (Fin 740)) (Fin (V_HEIGHT - FIXED_GROUND_HEIGHT)) \<and>
   \<not> groundCollision (Fin 740) \<and>
   gameState (update sampleStream 1
     (sampleGame Playing \<lparr>body_y = Fin 728, vel = Fin 12, rot = Fin 84\<rparr> samplePipes))
     = Playing \<and>
   pipeCollision \<lparr>body_y = Fin 400, vel = Fin 0, rot = Fin 0\<rparr>
     \<lparr>pipe_x = 150, gapY = 300, scored = False\<rparr> \<and>
   body_y (integrate 1 (plushpepe
     (sampleGame Playing \<lparr>body_y = Fin 740, vel = Fin 12, rot = Fin 84\<rparr> samplePipes)))
     = Fin 752 \<and>
   gameState (update sampleStream 1
     (sampleGame Playing \<lparr>body_y = Fin 740, vel = Fin 12, rot = Fin 84\<rparr> samplePipes))
     = Gameover"
proof -
  define s where
    "s = sampleGame Playing \<lparr>body_y = Fin 728, vel = Fin 12, rot = Fin 84\<rparr> samplePipes"
  define s' where
    "s' = sampleGame Playing \<lparr>body_y = Fin 740, vel = Fin 12, rot = Fin 84\<rparr> samplePipes"
  have h1: "gameState s = Playing" and h1': "gameState s' = Playing"
    by (simp_all add: s_def s'_def sampleGame_def)
  have h2: "body_y (integrate 1 (plushpepe s)) = Fin 740"
    and h2': "body_y (integrate 1 (plushpepe s')) = Fin 752"
    by (simp_all add: s_def s'_def sampleGame_def integrate_def Let_def jgt_def GRAVITY_def
        MAX_FALL_SPEED_def)
  note t = hitbox_mismatch [where y = 740 and s = s and step = 1 and rnd = sampleStream
      and b = "\<lparr>body_y = Fin 740, vel = Fin 0, rot = Fin 0\<rparr>"]
  have u: "update sampleStream 1 s
           = pipeCollisions (updatePipes sampleStream 1 (updateClouds sampleStream 1
               (advance 1 (updateFart 1 s))))"
    using t h1 h2 by simp
  have st: "gameState (update sampleStream 1 s) = Playing"
    unfolding u
    by (simp add: pipeCollisions_def updatePipes_def updateClouds_def advance_def
        updateFart_def s_def sampleGame_def samplePipes_def pipeAt_def pipeIter_def Let_def
        movePipe_def scoresNow_def offScreen_def
        integrate_def jgt_def jmax_def jmin_def consts_simps upt_rec [of 0] upt_rec [of "Suc _"]
        pipeCollision_def getPipeCollisionBounds_def plushpepeLeft_def plushpepeRight_def
        plushpepeTop_def plushpepeBottom_def hitboxOffsetX_def hitboxOffsetY_def)
  have pc: "pipeCollision \<lparr>body_y = Fin 400, vel = Fin 0, rot = Fin 0\<rparr>
     \<lparr>pipe_x = 150, gapY = 300, scored = False\<rparr>"
    using hitbox_mismatch [where y = 400 and b = "\<lparr>body_y = Fin 400, vel = Fin 0, rot = Fin 0\<rparr>"
        and p = "\<lparr>pipe_x = 150, gapY = 300, scored = False\<rparr>"]
    by (simp add: PIPE_WIDTH_def PIPE_GAP_def)
  have over: "gameState (update sampleStream 1 s') = Gameover"
    using hitbox_mismatch [where y = 752 and s = s' and step = 1 and rnd = sampleStream
        and b = "\<lparr>body_y = Fin 752, vel = Fin 0, rot = Fin 0\<rparr>"] h1' h2'
    by simp
  have band: "jge (plushpepeBottom (Fin 740)) (Fin (V_HEIGHT - FIXED_GROUND_HEIGHT)) \<and>
      \<not> groundCollision (Fin 740)"
    using t by (simp add: band_values jge_def V_HEIGHT_def FIXED_GROUND_HEIGHT_def)
  show ?thesis
    using h1 h2 h2' st pc over band unfolding s_def s'_def by simp
qed

subsection \<open>Non-finite Body values\<close>

lemma pipeCollision_NaN: "body_y b = NaN \<Longrightarrow> \<not> pipeCollision b p"
  by (simp add: pipeCollision_def plushpepeTop_def plushpepeBottom_def jgt_def split_beta Let_def)

lemma integrate_NaN:
  "vel b = NaN \<or> body_y b = NaN \<Longrightarrow> body_y (integrate step b) = NaN"
  by (cases "vel b"; cases "body_y b")
     (auto simp add: integrate_def Let_def jgt_def)

lemma update_NaN:
  assumes "gameState s = Playing" and "vel (plushpepe s) = NaN \<or> body_y (plushpepe s) = NaN"
  shows "gameState (update rnd step s) = Playing \<and> body_y (plushpepe (update rnd step s)) = NaN"
proof -
  have y: "body_y (integrate step (plushpepe s)) = NaN" using integrate_NaN [OF assms(2)] .
  let ?t = "updatePipes rnd step (updateClouds rnd step (advance step (updateFart step s)))"
  have b: "body_y (plushpepe ?t) = NaN" using y by simp
  have nc: "\<not> list_ex (pipeCollision (plushpepe ?t)) (pipes ?t)"
    using pipeCollision_NaN [OF b] by (simp add: list_ex_iff)
  have g: "gameState ?t = Playing" using assms(1) by simp
  have u: "update rnd step s = pipeCollisions ?t"
    using assms(1) y by (simp add: update_def Let_def groundCollision_def ceilingCollision_def jge_def)
  have "gameState (pipeCollisions ?t) \<noteq> Gameover"
    using nc g by (simp add: pipeCollisions_state)
  moreover have "pipeCollisions ?t = ?t"
    using nc by (simp add: pipeCollisions_def collision_fold)
  ultimately show ?thesis using u g b by simp
qed

lemma ticks_NaN:
  assumes "gameState s = Playing" and "vel (plushpepe s) = NaN \<or> body_y (plushpepe s) = NaN"
  shows "gameState (foldl (\<lambda>t step. update rnd step t) s steps) = Playing \<and>
         (vel (plushpepe (foldl (\<lambda>t step. update rnd step t) s steps)) = NaN \<or>
          body_y (plushpepe (foldl (\<lambda>t step. update rnd step t) s steps)) = NaN)"
  using assms
proof (induction steps arbitrary: s)
  case Nil
  then show ?case by simp
next
  case (Cons a steps)
  have "gameState (update rnd a s) = Playing \<and> body_y (plushpepe (update rnd a s)) = NaN"
    using update_NaN [OF Cons.prems] .
  then show ?case using Cons.IH [of "update rnd a s"] by simp
qed

lemma update_boundary:
  assumes "gameState s = Playing"
    and "groundCollision (body_y (integrate step (plushpepe s)))
         \<or> ceilingCollision (body_y (integrate step (plushpepe s)))"
  shows "update rnd step s = handleGameOver (advance step (updateFart step s))"
  using assms by (auto simp add: update_def Let_def)

lemma update_no_boundary:
  assumes "gameState s = Playing"
    and "\<not> groundCollision (body_y (integrate step (plushpepe s)))"
    and "\<not> ceilingCollision (body_y (integrate step (plushpepe s)))"
  shows "update rnd step s
         = pipeCollisions (updatePipes rnd step (updateClouds rnd step
             (advance step (updateFart step s))))"
  using assms by (simp add: update_def Let_def)

lemma update_infinite_position:
  assumes "gameState s = Playing" and "vel (plushpepe s) = Fin v"
    and "body_y (plushpepe s) = PInf \<or> body_y (plushpepe s) = NInf"
  shows "gameState (update rnd step s) = Gameover"
proof -
  have "groundCollision (body_y (integrate step (plushpepe s)))
        \<or> ceilingCollision (body_y (integrate step (plushpepe s)))"
    using assms(2,3)
    by (auto simp add: integrate_def Let_def jgt_def groundCollision_def ceilingCollision_def
        jge_def)
  then show ?thesis using update_boundary [OF assms(1)] by simp
qed

lemma update_neg_infinite_velocity:
  assumes "gameState s = Playing" and "vel (plushpepe s) = NInf" and "0 < step"
    and "body_y (plushpepe s) = Fin p"
  shows "gameState (update rnd step s) = Gameover"
proof -
  have "ceilingCollision (body_y (integrate step (plushpepe s)))"
    using assms(2-4)
    by (simp add: integrate_def Let_def jgt_def ceilingCollision_def)
  then show ?thesis using update_boundary [OF assms(1)] by simp
qed

lemma update_pos_infinite_velocity:
  assumes "gameState s = Playing" and "vel (plushpepe s) = PInf"
  shows "vel (plushpepe (update rnd step s)) = Fin MAX_FALL_SPEED"
  using assms by (simp add: update_body integrate_def Let_def jgt_def)

subsection \<open>Collision is tested after recycling\<close>

lemma gap_after_300: "randomGapY sampleStream (Suc 0) (Some 300) = (205, 3)"
proof -
  have r: "resample sampleStream (Suc (Suc 0)) 205 400 300 0 = (205, 3)"
    by (subst resample.simps)
       (simp add: Let_def candidateGap_def sampleStream_def maxAttempts_def)
  show ?thesis
    by (simp add: randomGapY_def constrainedGap_def finalRange_def Let_def minReachableY_def
        maxReachableY_def
        delta_values gap_bounds sampleStream_def r)
qed

lemma stray_pipes_after:
  "pipes (updatePipes sampleStream 1 (updateClouds sampleStream 1 (advance 1 (updateFart 1
      (sampleGame Playing \<lparr>body_y = Fin 100, vel = Fin 0, rot = Fin 0\<rparr> strayPipes)))))
   = [\<lparr>pipe_x = 6239 / 40, gapY = 205, scored = False\<rparr>,
      \<lparr>pipe_x = 9839 / 40, gapY = 300, scored = False\<rparr>,
      \<lparr>pipe_x = 23839 / 40, gapY = 300, scored = False\<rparr>]"
  by (simp add: updatePipes_def updateClouds_def advance_def updateFart_def sampleGame_def
      strayPipes_def pipeIter_def movePipe_def scoresNow_def offScreen_def Let_def consts_simps
      upt_rec [of 0] upt_rec [of "Suc _"] rightmostPipe_def gap_after_300)

lemma stray_body:
  "integrate 1 (plushpepe (sampleGame Playing \<lparr>body_y = Fin 100, vel = Fin 0, rot = Fin 0\<rparr>
      strayPipes)) = \<lparr>body_y = Fin (502 / 5), vel = Fin (2 / 5), rot = Fin (14 / 5)\<rparr>"
  by (simp add: sampleGame_def integrate_def Let_def jgt_def jmax_def jmin_def GRAVITY_def
      MAX_FALL_SPEED_def)

lemmas collision_eval =
  pipeCollision_def getPipeCollisionBounds_def plushpepeLeft_def plushpepeRight_def
  plushpepeTop_def plushpepeBottom_def hitboxOffsetX_def hitboxOffsetY_def jgt_def Let_def
  consts_simps


text \<open>
  On a pool that no run of the game produces the order of the two loops shows: here a pipe
  far to the left of the screen is recycled onto the Body, and the tick ends the game although
  the Body overlaps no pipe of the pool, moved or not.
\<close>

lemma stray_pool_outcome:
  "gameState (sampleGame Playing \<lparr>body_y = Fin 100, vel = Fin 0, rot = Fin 0\<rparr> strayPipes)
     = Playing \<and>
   gameState (update sampleStream 1
     (sampleGame Playing \<lparr>body_y = Fin 100, vel = Fin 0, rot = Fin 0\<rparr> strayPipes)) = Gameover \<and>
   \<not> groundCollision (body_y (integrate 1 (plushpepe
        (sampleGame Playing \<lparr>body_y = Fin 100, vel = Fin 0, rot = Fin 0\<rparr> strayPipes)))) \<and>
   \<not> ceilingCollision (body_y (integrate 1 (plushpepe
        (sampleGame Playing \<lparr>body_y = Fin 100, vel = Fin 0, rot = Fin 0\<rparr> strayPipes)))) \<and>
   \<not> list_ex (pipeCollision (integrate 1 (plushpepe
        (sampleGame Playing \<lparr>body_y = Fin 100, vel = Fin 0, rot = Fin 0\<rparr> strayPipes))))
       (shiftPipes 1 strayPipes) \<and>
   \<not> list_ex (pipeCollision (integrate 1 (plushpepe
        (sampleGame Playing \<lparr>body_y = Fin 100, vel = Fin 0, rot = Fin 0\<rparr> strayPipes))))
       strayPipes"
proof -
  define s where
    "s = sampleGame Playing \<lparr>body_y = Fin 100, vel = Fin 0, rot = Fin 0\<rparr> strayPipes"
  have h: "gameState s = Playing" by (simp add: s_def sampleGame_def)
  have b: "integrate 1 (plushpepe s)
           = \<lparr>body_y = Fin (502 / 5), vel = Fin (2 / 5), rot = Fin (14 / 5)\<rparr>"
    unfolding s_def by (rule stray_body)
  have g: "\<not> groundCollision (body_y (integrate 1 (plushpepe s)))"
    and c: "\<not> ceilingCollision (body_y (integrate 1 (plushpepe s)))"
    unfolding b
    by (simp_all add: groundCollision_def ceilingCollision_def jge_def Let_def consts_simps)
  have u: "update sampleStream 1 s
           = pipeCollisions (updatePipes sampleStream 1 (updateClouds sampleStream 1
               (advance 1 (updateFart 1 s))))"
    using update_no_boundary [OF h g c] .
  have hit: "list_ex (pipeCollision (integrate 1 (plushpepe s)))
     (pipes (updatePipes sampleStream 1 (updateClouds sampleStream 1
               (advance 1 (updateFart 1 s)))))"
    unfolding b unfolding s_def stray_pipes_after by (simp add: collision_eval)
  have over: "gameState (update sampleStream 1 s) = Gameover"
    unfolding u using hit by (simp add: pipeCollisions_state)
  have n1: "\<not> list_ex (pipeCollision (integrate 1 (plushpepe s))) (shiftPipes 1 strayPipes)"
    unfolding b by (simp add: shiftPipes_def movePipe_def strayPipes_def collision_eval)
  have n2: "\<not> list_ex (pipeCollision (integrate 1 (plushpepe s))) strayPipes"
    unfolding b by (simp add: strayPipes_def collision_eval)
  show ?thesis using h over g c n1 n2 unfolding s_def by simp
qed

subsection \<open>Scoring\<close>








subsection \<open>The persisted best score\<close>

lemma handleGameOver_twice: "handleGameOver (handleGameOver s) = handleGameOver s"
  by (simp add: handleGameOver_def Let_def)

lemma collision_fold_eq:
  "foldl (\<lambda>t p. if pipeCollision (plushpepe t) p then handleGameOver t else t) s ps
     = (if list_ex (pipeCollision (plushpepe s)) ps then handleGameOver s else s)"
  by (induction ps arbitrary: s) (auto simp add: handleGameOver_twice)

lemma pipeCollisions_eq:
  "pipeCollisions s
     = (if list_ex (pipeCollision (plushpepe s)) (pipes s) then handleGameOver s else s)"
  by (simp add: pipeCollisions_def collision_fold_eq)

lemma handleGameOver_best:
  "storedBest (handleGameOver s)
     = (if highScore s < globalScore s then Some (globalScore s) else storedBest s)"
  "highScore (handleGameOver s)
     = (if highScore s < globalScore s then globalScore s else highScore s)"
  by (simp_all add: handleGameOver_def Let_def)

lemma bestInv_handleGameOver: "bestInv s \<Longrightarrow> bestInv (handleGameOver s)"
  by (simp add: bestInv_def handleGameOver_best loadBest_def)

lemma bestInv_cong:
  "highScore t = highScore s \<Longrightarrow> storedBest t = storedBest s \<Longrightarrow> bestInv s \<Longrightarrow> bestInv t"
  by (simp add: bestInv_def)

lemma bestInv_update: "bestInv s \<Longrightarrow> bestInv (update rnd step s)"
  by (auto simp add: update_def Let_def pipeCollisions_eq
      intro!: bestInv_handleGameOver intro: bestInv_cong [of _ s])

lemma flap_best:
  "storedBest (flap rnd s) = storedBest s" "highScore (flap rnd s) = highScore s"
  by (cases "gameState s"; simp add: flap_def resetGame_fields)+

lemma bestInv_flap: "bestInv s \<Longrightarrow> bestInv (flap rnd s)"
  by (simp add: bestInv_def flap_best)

lemma bestInv_initial: "bestInv (initialGame rnd saved)"
  by (simp add: bestInv_def initialGame_def split_beta)

lemma bestInv_event: "bestInv s \<Longrightarrow> bestInv (applyEvent rnd s e)"
  by (cases e) (simp_all add: bestInv_update bestInv_flap)

lemma bestInv_run: "bestInv s \<Longrightarrow> bestInv (run rnd evs s)"
  unfolding run_def by (induction evs arbitrary: s) (simp_all add: bestInv_event)

lemma update_terminal_write:
  assumes "bestInv s" and "gameState s = Playing" and "gameState (update rnd step s) = Gameover"
  shows "storedBest (update rnd step s)
     = (if loadBest (storedBest s) < globalScore (update rnd step s)
        then Some (globalScore (update rnd step s)) else storedBest s)"
  using assms
  by (auto simp add: update_def Let_def pipeCollisions_eq handleGameOver_best bestInv_def
      split: if_splits)

lemma update_no_write:
  assumes "gameState (update rnd step s) \<noteq> Gameover \<or> gameState s \<noteq> Playing"
  shows "storedBest (update rnd step s) = storedBest s"
  using assms
  by (auto simp add: update_def Let_def pipeCollisions_eq split: if_splits)

lemma update_best_mono:
  assumes "bestInv s"
  shows "loadBest (storedBest s) \<le> loadBest (storedBest (update rnd step s))"
  using assms
  by (auto simp add: update_def Let_def pipeCollisions_eq handleGameOver_best bestInv_def
      loadBest_def)

lemma event_best_mono:
  assumes "bestInv s"
  shows "loadBest (storedBest s) \<le> loadBest (storedBest (applyEvent rnd s e))"
  using assms by (cases e) (simp_all add: update_best_mono flap_best)

lemma run_best_mono:
  "bestInv s \<Longrightarrow> loadBest (storedBest s) \<le> loadBest (storedBest (run rnd evs s))"
  unfolding run_def
proof (induction evs arbitrary: s)
  case Nil
  show ?case by simp
next
  case (Cons e evs)
  have "loadBest (storedBest s) \<le> loadBest (storedBest (applyEvent rnd s e))"
    using event_best_mono [OF Cons.prems] .
  moreover have "loadBest (storedBest (applyEvent rnd s e))
      \<le> loadBest (storedBest (foldl (applyEvent rnd) (applyEvent rnd s e) evs))"
    using Cons.IH [OF bestInv_event [OF Cons.prems]] .
  ultimately show ?case by simp
qed

text \<open>
  Claim C9. In every state reached from the initial one by ticks and inputs: a tick that takes
  the game from playing to game over writes the session's score to storage exactly when it is
  strictly greater than the stored best (default 0), and leaves the stored value alone
  otherwise; a tick that is not such a transition and a jump or restart never change the
  stored value; so no event lowers the stored best, which never falls below the value loaded
  at start.
\<close>

theorem best_score_only_increases:
  "(gameState (run rnd evs (initialGame rnd saved)) = Playing \<and>
    gameState (update rnd step (run rnd evs (initialGame rnd saved))) = Gameover \<longrightarrow>
      storedBest (update rnd step (run rnd evs (initialGame rnd saved)))
        = (if loadBest (storedBest (run rnd evs (initialGame rnd saved)))
                < globalScore (update rnd step (run rnd evs (initialGame rnd saved)))
           then Some (globalScore (update rnd step (run rnd evs (initialGame rnd saved))))
           else storedBest (run rnd evs (initialGame rnd saved)))) \<and>
   (gameState (update rnd step (run rnd evs (initialGame rnd saved))) \<noteq> Gameover \<or>
    gameState (run rnd evs (initialGame rnd saved)) \<noteq> Playing \<longrightarrow>
      storedBest (update rnd step (run rnd evs (initialGame rnd saved)))
        = storedBest (run rnd evs (initialGame rnd saved))) \<and>
   storedBest (flap rnd (run rnd evs (initialGame rnd saved)))
     = storedBest (run rnd evs (initialGame rnd saved)) \<and>
   loadBest (storedBest (run rnd evs (initialGame rnd saved)))
     \<le> loadBest (storedBest (applyEvent rnd (run rnd evs (initialGame rnd saved)) e)) \<and>
   loadBest saved \<le> loadBest (storedBest (run rnd evs (initialGame rnd saved)))"
proof -
  let ?s = "run rnd evs (initialGame rnd saved)"
  have inv: "bestInv ?s" by (rule bestInv_run [OF bestInv_initial])
  have init: "storedBest (initialGame rnd saved) = saved"
    by (simp add: initialGame_def split_beta)
  have a: "gameState ?s = Playing \<and> gameState (update rnd step ?s) = Gameover \<longrightarrow>
      storedBest (update rnd step ?s)
        = (if loadBest (storedBest ?s) < globalScore (update rnd step ?s)
           then Some (globalScore (update rnd step ?s)) else storedBest ?s)"
    using update_terminal_write [OF inv, of rnd step] by blast
  have b: "gameState (update rnd step ?s) \<noteq> Gameover \<or> gameState ?s \<noteq> Playing \<longrightarrow>
      storedBest (update rnd step ?s) = storedBest ?s"
    using update_no_write [of rnd step ?s] by blast
  have c: "loadBest (storedBest ?s) \<le> loadBest (storedBest (applyEvent rnd ?s e))"
    using event_best_mono [OF inv] .
  have d: "loadBest saved \<le> loadBest (storedBest ?s)"
    using run_best_mono [OF bestInv_initial, of rnd saved rnd evs] by (simp add: init)
  show ?thesis using a b c d flap_best(1) [of rnd ?s] by blast
qed

theorem best_score_only_increases_witness:
  "gameState (run sampleStream [Flap] (initialGame sampleStream (Some 5))) = Playing \<and>
   gameState (update sampleStream 100 (run sampleStream [Flap] (initialGame sampleStream (Some 5))))
     = Gameover \<and>
   storedBest (update sampleStream 100
     (run sampleStream [Flap] (initialGame sampleStream (Some 5)))) = Some 5"
proof -
  define s where "s = run sampleStream [Flap] (initialGame sampleStream (Some 5))"
  have f: "gameState s = Playing" "storedBest s = Some 5"
    "plushpepe s = \<lparr>body_y = Fin 412, vel = Fin (- (13 / 2)), rot = Fin 0\<rparr>"
    by (simp_all add: s_def run_def flap_def initialGame_def split_beta spawnBody_def
        V_HEIGHT_def JUMP_VELOCITY_def)
  have sc: "globalScore s = 0"
    by (simp add: s_def run_def flap_def initialGame_def split_beta)
  have g: "groundCollision (body_y (integrate 100 (plushpepe s)))"
    by (simp add: f integrate_def Let_def jgt_def groundCollision_def jge_def consts_simps)
  have u: "update sampleStream 100 s = handleGameOver (advance 100 (updateFart 100 s))"
    using update_boundary [OF f(1), of 100 sampleStream] g by simp
  have o: "gameState (update sampleStream 100 s) = Gameover" by (simp add: u)
  have sc2: "globalScore (update sampleStream 100 s) = 0" by (simp add: u sc)
  show ?thesis
    using best_score_only_increases [of sampleStream "[Flap]" "Some 5" 100] f o sc2
    unfolding s_def by (simp add: loadBest_def)
qed

subsection \<open>The initial pool\<close>

lemmas gap_eval = floor_rat_numeral_div
  randomGapY_def constrainedGap_def finalRange_def firstGap_def Let_def minReachableY_def
  maxReachableY_def
  delta_values gap_bounds sampleStream_def

lemma sample_gap_first: "randomGapY sampleStream 0 None = (318, Suc 0)"
  by (simp add: gap_eval)

lemma sample_gap_second: "randomGapY sampleStream (Suc 0) (Some 318) = (223, 3)"
proof -
  have r: "resample sampleStream (Suc (Suc 0)) 223 418 318 0 = (223, 3)"
    by (subst resample.simps)
       (simp add: Let_def candidateGap_def sampleStream_def maxAttempts_def
          floor_rat_numeral_div)
  show ?thesis by (simp add: gap_eval r)
qed

lemma sample_gap_inner: "randomGapY sampleStream 3 (Some 318) = (417, 5)"
proof -
  have r: "resample sampleStream 4 223 418 318 0 = (417, 5)"
    by (subst resample.simps)
       (simp add: Let_def candidateGap_def sampleStream_def maxAttempts_def
          floor_rat_numeral_div)
  show ?thesis by (simp add: gap_eval r)
qed

lemma sample_gap_third: "randomGapY sampleStream 5 (Some 417) = (506, 7)"
proof -
  have r: "resample sampleStream 6 322 (1015 / 2) 417 0 = (506, 7)"
    by (subst resample.simps)
       (simp add: Let_def candidateGap_def sampleStream_def maxAttempts_def
          floor_rat_numeral_div)
  show ?thesis by (simp add: gap_eval r)
qed

lemma sample_gap_chained: "randomGapY sampleStream 3 (Some 223) = (322, 5)"
proof -
  have r: "resample sampleStream 4 130 323 223 0 = (322, 5)"
    by (subst resample.simps)
       (simp add: Let_def candidateGap_def sampleStream_def maxAttempts_def
          floor_rat_numeral_div)
  show ?thesis by (simp add: gap_eval r)
qed

text \<open>
  Claim C7 fails at process start. With the draws of \<open>sampleStream\<close> the initial pool has the
  gaps 318, 223 and 506: the third gap is anchored on a second sample drawn from the first
  gap (417), not on the second pipe's gap 223, whose reachable range ends at 323. The reset
  path, on the same draws, chains the third gap on the second and gives 322.
\<close>

theorem initial_pool_third_gap_unchained:
  "map gapY (fst (initialPipes sampleStream 0)) = [318, 223, 506] \<and>
   maxReachableY 223 = 323 \<and>
   map gapY (pipes (resetGame sampleStream (sampleGame Gameover spawnBody []))) = [318, 223, 322]"
  by (simp add: initialPipes_def resetGame_def sampleGame_def pipeAt_def sample_gap_first
      sample_gap_second sample_gap_inner sample_gap_third sample_gap_chained
      maxReachableY_def delta_values gap_bounds)

lemma anchored_gap_reachable:
  assumes u: "unitStream rnd" and lo: "minGapY \<le> g" and hi: "g \<le> maxGapY"
  shows "of_int \<lfloor>minReachableY g\<rfloor> \<le> fst (randomGapY rnd k (Some g)) \<and>
         fst (randomGapY rnd k (Some g)) \<le> maxReachableY g"
proof -
  note rf = reachable_facts [OF lo hi]
  define rmin where "rmin = (if rnd k < 1 / 10 then max (minReachableY g) (g - 30)
     else if rnd k < 4 / 10 then max (minReachableY g) (g - 60) else minReachableY g)"
  define rmax where "rmax = (if rnd k < 1 / 10 then min (maxReachableY g) (g + 30)
     else if rnd k < 4 / 10 then min (maxReachableY g) (g + 60) else maxReachableY g)"
  define t where "t = fst (resample rnd (k + 1) rmin rmax g 0)"
  define k' where "k' = snd (resample rnd (k + 1) rmin rmax g 0)"
  have range: "minReachableY g \<le> rmin" "rmin \<le> rmax" "rmax \<le> maxReachableY g"
    using rf by (auto simp add: rmin_def rmax_def)
  have rb: "of_int \<lfloor>rmin\<rfloor> \<le> t" "t \<le> rmax"
    using resample_bounds [OF u range(2), of "k + 1" g 0] by (simp_all add: t_def)
  have fl: "(of_int \<lfloor>minReachableY g\<rfloor> :: rat) \<le> of_int \<lfloor>rmin\<rfloor>"
    using range(1) by (simp add: floor_mono)
  have fm: "(of_int \<lfloor>minReachableY g\<rfloor> :: rat) \<le> minReachableY g"
    by (rule of_int_floor_le)
  have cg: "constrainedGap rnd k g =
     (if \<bar>t - g\<bar> < 40
      then (if g - 40 \<ge> minReachableY g then (g - 40, k')
            else if g + 40 \<le> maxReachableY g then (g + 40, k')
            else if \<bar>minReachableY g - g\<bar> > \<bar>maxReachableY g - g\<bar>
            then (minReachableY g, k') else (maxReachableY g, k'))
      else (t, k'))"
    unfolding constrainedGap_def finalRange_def Let_def rmin_def rmax_def t_def k'_def
    by (cases "rnd k < 1 / 10"; cases "rnd k < 4 / 10")
       (simp_all only: if_True if_False split_beta fst_conv snd_conv)
  have tlo: "of_int \<lfloor>minReachableY g\<rfloor> \<le> t" using rb(1) fl by linarith
  have thi: "t \<le> maxReachableY g" using rb(2) range(3) by linarith
  have c: "of_int \<lfloor>minReachableY g\<rfloor> \<le> fst (constrainedGap rnd k g) \<and>
        fst (constrainedGap rnd k g) \<le> maxReachableY g"
  proof (cases "\<bar>t - g\<bar> < 40")
    case False
    then show ?thesis using tlo thi by (simp add: cg)
  next
    case True
    show ?thesis
    proof (cases "minReachableY g \<le> g - 40")
      case up: True
      have "of_int \<lfloor>minReachableY g\<rfloor> \<le> g - 40" using up fm by linarith
      moreover have "g - 40 \<le> maxReachableY g" using rf(3) by linarith
      ultimately show ?thesis using True up by (simp add: cg)
    next
      case nup: False
      then have down: "g + 40 \<le> maxReachableY g" using unblocked [OF lo hi] by simp
      have "of_int \<lfloor>minReachableY g\<rfloor> \<le> g + 40" using rf(2) fm by linarith
      then show ?thesis using True nup down by (simp add: cg)
    qed
  qed
  then show ?thesis by (simp add: randomGapY_Some_props [OF u lo hi])
qed

lemma first_gap_middle:
  assumes "unitStream rnd"
  shows "224 \<le> fst (randomGapY rnd k None) \<and> fst (randomGapY rnd k None) \<le> 413 \<and>
         minGapY + (maxGapY - minGapY) * (25 / 100) < fst (randomGapY rnd k None) + 1 \<and>
         fst (randomGapY rnd k None) < minGapY + (maxGapY - minGapY) * (75 / 100)"
proof -
  have r: "0 \<le> rnd k" "rnd k < 1" using assms by (simp_all add: unitStream_def)
  define z where "z = 1795 / 8 + rnd k * (755 / 4)"
  have z: "1795 / 8 \<le> z" "z < 3305 / 8" using r by (simp_all add: z_def)
  have f1: "(224::int) \<le> \<lfloor>z\<rfloor>" using z(1) by (simp add: le_floor_iff)
  have "\<lfloor>z\<rfloor> < (414::int)" using z(2) by (simp add: floor_less_iff)
  then have f2: "\<lfloor>z\<rfloor> \<le> (413::int)" by simp
  have q1: "(224::rat) \<le> of_int \<lfloor>z\<rfloor>" using f1 by (metis of_int_le_iff of_int_numeral)
  have q2: "(of_int \<lfloor>z\<rfloor> :: rat) \<le> 413" using f2 by (metis of_int_le_iff of_int_numeral)
  have q3: "(of_int \<lfloor>z\<rfloor> :: rat) \<le> z" by (rule of_int_floor_le)
  have q4: "z < of_int \<lfloor>z\<rfloor> + 1" by linarith
  have fg: "fst (firstGap rnd k) = of_int \<lfloor>z\<rfloor>"
    by (simp add: firstGap_def Let_def gap_bounds z_def)
  have c1: "(of_int \<lfloor>z\<rfloor> :: rat) \<le> 1015 / 2" using q2 by linarith
  have c2: "(130::rat) \<le> of_int \<lfloor>z\<rfloor>" using q1 by linarith
  have cl: "max (130::rat) (min (1015 / 2) (of_int \<lfloor>z\<rfloor>)) = of_int \<lfloor>z\<rfloor>"
    by (simp only: min_absorb2 [OF c1] max_absorb2 [OF c2])
  have e: "fst (randomGapY rnd k None) = of_int \<lfloor>z\<rfloor>"
    using cl by (simp add: randomGapY_def Let_def split_beta gap_bounds fg)
  have m1: "minGapY + (maxGapY - minGapY) * (25 / 100) = 1795 / 8"
    and m2: "minGapY + (maxGapY - minGapY) * (75 / 100) = 3305 / 8"
    by (simp_all add: gap_bounds)
  have "224 \<le> (of_int \<lfloor>z\<rfloor> :: rat)" "(of_int \<lfloor>z\<rfloor> :: rat) \<le> 413"
       "1795 / 8 < (of_int \<lfloor>z\<rfloor> :: rat) + 1" "(of_int \<lfloor>z\<rfloor> :: rat) < 3305 / 8"
    using q1 q2 q3 q4 z by linarith+
  then show ?thesis unfolding e m1 m2 by blast
qed

lemma reset_pool_chained:
  "map gapY (pipes (resetGame rnd s)) =
     [fst (randomGapY rnd (draws s) None),
      fst (randomGapY rnd (snd (randomGapY rnd (draws s) None))
             (Some (fst (randomGapY rnd (draws s) None)))),
      fst (randomGapY rnd
             (snd (randomGapY rnd (snd (randomGapY rnd (draws s) None))
                     (Some (fst (randomGapY rnd (draws s) None)))))
             (Some (fst (randomGapY rnd (snd (randomGapY rnd (draws s) None))
                     (Some (fst (randomGapY rnd (draws s) None)))))))]"
  by (simp add: resetGame_def Let_def split_beta pipeAt_def)

section \<open>Non-finite Body values and a throwing store\<close>

lemma handleGameOverE_returns: "handleGameOverE False s = Inr (handleGameOver s)"
  by (simp add: handleGameOverE_def)

lemma collisionE_fold_inl:
  "foldl (\<lambda>r p. case r of Inl e \<Rightarrow> Inl e
                   | Inr t \<Rightarrow> if pipeCollision (plushpepe t) p
                             then handleGameOverE thr t else Inr t) (Inl e) ps = Inl e"
  by (induction ps) simp_all

lemma collisionE_fold:
  "foldl (\<lambda>r p. case r of Inl e \<Rightarrow> Inl e
                   | Inr t \<Rightarrow> if pipeCollision (plushpepe t) p
                             then handleGameOverE thr t else Inr t) (Inr s) ps
     = (if list_ex (pipeCollision (plushpepe s)) ps
        then (if thr then Inl (StorageError, s) else Inr (handleGameOver s))
        else Inr s)"
proof (induction ps arbitrary: s)
  case Nil
  show ?case by simp
next
  case (Cons p ps)
  show ?case
  proof (cases "pipeCollision (plushpepe s) p")
    case True
    show ?thesis
    proof (cases thr)
      case t: True
      then show ?thesis using True by (simp add: handleGameOverE_def collisionE_fold_inl)
    next
      case f: False
      have "foldl (\<lambda>r p. case r of Inl e \<Rightarrow> Inl e
                   | Inr t \<Rightarrow> if pipeCollision (plushpepe t) p
                             then handleGameOverE thr t else Inr t) (Inr (handleGameOver s)) ps
            = Inr (handleGameOver s)"
        using f by (simp add: Cons.IH handleGameOver_twice)
      then show ?thesis using True f by (simp add: handleGameOverE_def)
    qed
  next
    case False
    then show ?thesis by (simp add: Cons.IH)
  qed
qed

lemma pipeCollisionsE_eq:
  "pipeCollisionsE thr s
     = (if list_ex (pipeCollision (plushpepe s)) (pipes s)
        then (if thr then Inl (StorageError, s) else Inr (handleGameOver s))
        else Inr s)"
  by (simp add: pipeCollisionsE_def collisionE_fold)

lemma updateE_returns: "updateE rnd False step s = Inr (update rnd step s)"
  by (simp add: updateE_def update_def Let_def handleGameOverE_def pipeCollisionsE_eq
      pipeCollisions_eq)

lemma updateE_no_collision:
  assumes "gameState (update rnd step s) \<noteq> Gameover"
  shows "updateE rnd thr step s = Inr (update rnd step s)"
  using assms
  by (auto simp add: updateE_def update_def Let_def handleGameOverE_def pipeCollisionsE_eq
      pipeCollisions_eq split: if_splits)

lemma updateE_boundary:
  assumes "gameState s = Playing"
    and "groundCollision (body_y (integrate step (plushpepe s)))
         \<or> ceilingCollision (body_y (integrate step (plushpepe s)))"
  shows "updateE rnd thr step s
           = (if thr then Inl (StorageError, advance step (updateFart step s))
              else Inr (handleGameOver (advance step (updateFart step s))))"
  using assms by (auto simp add: updateE_def Let_def handleGameOverE_def)

lemma updateE_throws_iff:
  assumes "gameState s = Playing"
  shows "(\<exists>x. updateE rnd thr step s = Inl x)
           = (thr \<and> gameState (update rnd step s) = Gameover)"
  using assms
  by (auto simp add: updateE_def update_def Let_def handleGameOverE_def pipeCollisionsE_eq
      pipeCollisions_eq)

lemma updateE_throw_state:
  assumes "updateE rnd thr step s = Inl (e, t)"
  shows "gameState t = Playing \<and> plushpepe t = integrate step (plushpepe s)"
  using assms
  by (auto simp add: updateE_def Let_def handleGameOverE_def pipeCollisionsE_eq
      split: if_splits)


lemma updateE_NaN:
  assumes "gameState s = Playing" and "vel (plushpepe s) = NaN \<or> body_y (plushpepe s) = NaN"
  shows "updateE rnd thr step s = Inr (update rnd step s)"
  using update_NaN [OF assms, of rnd step] by (intro updateE_no_collision) simp

lemma ticksE_NaN:
  assumes "gameState s = Playing" and "vel (plushpepe s) = NaN \<or> body_y (plushpepe s) = NaN"
  shows "updateE rnd thr step' (foldl (\<lambda>t step. update rnd step t) s steps)
           = Inr (update rnd step' (foldl (\<lambda>t step. update rnd step t) s steps))"
  using ticks_NaN [OF assms, of rnd steps] by (intro updateE_NaN) simp_all

lemma updateE_infinite_position:
  assumes "gameState s = Playing" and "vel (plushpepe s) = Fin v"
    and "body_y (plushpepe s) = PInf \<or> body_y (plushpepe s) = NInf"
  shows "updateE rnd thr step s
           = (if thr then Inl (StorageError, advance step (updateFart step s))
              else Inr (handleGameOver (advance step (updateFart step s))))"
proof -
  have "groundCollision (body_y (integrate step (plushpepe s)))
        \<or> ceilingCollision (body_y (integrate step (plushpepe s)))"
    using assms(2,3)
    by (auto simp add: integrate_def Let_def jgt_def groundCollision_def ceilingCollision_def
        jge_def)
  then show ?thesis by (rule updateE_boundary [OF assms(1)])
qed

lemma updateE_neg_infinite_velocity:
  assumes "gameState s = Playing" and "vel (plushpepe s) = NInf" and "0 < step"
    and "body_y (plushpepe s) = Fin p"
  shows "updateE rnd thr step s
           = (if thr then Inl (StorageError, advance step (updateFart step s))
              else Inr (handleGameOver (advance step (updateFart step s))))"
proof -
  have "ceilingCollision (body_y (integrate step (plushpepe s)))"
    using assms(2-4)
    by (simp add: integrate_def Let_def jgt_def ceilingCollision_def)
  then show ?thesis using updateE_boundary [OF assms(1)] by simp
qed

text \<open>
  Claim C8, amended. On a playing tick:
  \<^item> a NaN position or velocity is not caught: every comparison with NaN is false, so the tick
    returns without an exception, leaves the game playing with a NaN position, and so does
    every later tick;
  \<^item> a position \<open>+Infinity\<close> or \<open>-Infinity\<close> (velocity finite), or a velocity \<open>-Infinity\<close>
    (position finite, step positive), fires the ground or the ceiling test, which calls
    \<open>handleGameOver\<close>: when \<open>localStorage.setItem\<close> returns, the game is over after the
    tick; when it throws, the exception propagates out of the tick handler and the game is
    still playing;
  \<^item> a velocity \<open>+Infinity\<close> is capped to \<open>MAX_FALL_SPEED\<close>;
  \<^item> an exception propagates out of a tick exactly when the store throws and the tick would
    otherwise end the game, and it leaves the game playing with the Body integrated.
\<close>

theorem nonfinite_body:
  assumes "gameState s = Playing"
  shows "(vel (plushpepe s) = NaN \<or> body_y (plushpepe s) = NaN \<longrightarrow>
            updateE rnd thr step s = Inr (update rnd step s) \<and>
            gameState (update rnd step s) = Playing \<and>
            body_y (plushpepe (update rnd step s)) = NaN \<and>
            (\<forall>steps step'.
               gameState (foldl (\<lambda>t step. update rnd step t) s steps) = Playing \<and>
               updateE rnd thr step' (foldl (\<lambda>t step. update rnd step t) s steps)
                 = Inr (update rnd step' (foldl (\<lambda>t step. update rnd step t) s steps)))) \<and>
         ((body_y (plushpepe s) = PInf \<or> body_y (plushpepe s) = NInf) \<and>
          vel (plushpepe s) = Fin v \<or>
          vel (plushpepe s) = NInf \<and> 0 < step \<and> body_y (plushpepe s) = Fin p \<longrightarrow>
            updateE rnd thr step s
              = (if thr then Inl (StorageError, advance step (updateFart step s))
                 else Inr (handleGameOver (advance step (updateFart step s)))) \<and>
            gameState (advance step (updateFart step s)) = Playing \<and>
            gameState (handleGameOver (advance step (updateFart step s))) = Gameover) \<and>
         (vel (plushpepe s) = PInf \<longrightarrow>
            vel (plushpepe (update rnd step s)) = Fin MAX_FALL_SPEED) \<and>
         (\<exists>x. updateE rnd thr step s = Inl x)
           = (thr \<and> gameState (update rnd step s) = Gameover) \<and>
         (\<forall>e t. updateE rnd thr step s = Inl (e, t) \<longrightarrow>
            gameState t = Playing \<and> plushpepe t = integrate step (plushpepe s))"
proof -
  have nan: "updateE rnd thr step s = Inr (update rnd step s) \<and>
            gameState (update rnd step s) = Playing \<and>
            body_y (plushpepe (update rnd step s)) = NaN \<and>
            (\<forall>steps step'.
               gameState (foldl (\<lambda>t step. update rnd step t) s steps) = Playing \<and>
               updateE rnd thr step' (foldl (\<lambda>t step. update rnd step t) s steps)
                 = Inr (update rnd step' (foldl (\<lambda>t step. update rnd step t) s steps)))"
    if n: "vel (plushpepe s) = NaN \<or> body_y (plushpepe s) = NaN"
    using update_NaN [OF assms n, of rnd step] updateE_NaN [OF assms n, of rnd thr step]
      ticks_NaN [OF assms n, of rnd] ticksE_NaN [OF assms n, of rnd thr]
    by simp
  have inf: "updateE rnd thr step s
              = (if thr then Inl (StorageError, advance step (updateFart step s))
                 else Inr (handleGameOver (advance step (updateFart step s)))) \<and>
            gameState (advance step (updateFart step s)) = Playing \<and>
            gameState (handleGameOver (advance step (updateFart step s))) = Gameover"
    if i: "(body_y (plushpepe s) = PInf \<or> body_y (plushpepe s) = NInf) \<and>
          vel (plushpepe s) = Fin v \<or>
          vel (plushpepe s) = NInf \<and> 0 < step \<and> body_y (plushpepe s) = Fin p"
    using i updateE_infinite_position [OF assms, of v rnd thr step]
      updateE_neg_infinite_velocity [OF assms, of step p rnd thr] assms
    by auto
  have cap: "vel (plushpepe s) = PInf \<longrightarrow>
            vel (plushpepe (update rnd step s)) = Fin MAX_FALL_SPEED"
    using update_pos_infinite_velocity [OF assms, of rnd step] by simp
  have thr: "(\<exists>x. updateE rnd thr step s = Inl x)
           = (thr \<and> gameState (update rnd step s) = Gameover)"
    by (rule updateE_throws_iff [OF assms])
  have st: "\<forall>e t. updateE rnd thr step s = Inl (e, t) \<longrightarrow>
            gameState t = Playing \<and> plushpepe t = integrate step (plushpepe s)"
    using updateE_throw_state [of rnd thr step s] by blast
  show ?thesis using nan inf cap thr st by blast
qed


theorem nonfinite_body_witness:
  "gameState (sampleGame Playing \<lparr>body_y = PInf, vel = Fin 0, rot = Fin 0\<rparr> samplePipes)
     = Playing \<and>
   updateE sampleStream False 1
     (sampleGame Playing \<lparr>body_y = PInf, vel = Fin 0, rot = Fin 0\<rparr> samplePipes)
     = Inr (handleGameOver (advance 1 (updateFart 1
         (sampleGame Playing \<lparr>body_y = PInf, vel = Fin 0, rot = Fin 0\<rparr> samplePipes)))) \<and>
   updateE sampleStream True 1
     (sampleGame Playing \<lparr>body_y = Fin 412, vel = NInf, rot = Fin 0\<rparr> samplePipes)
     = Inl (StorageError, advance 1 (updateFart 1
         (sampleGame Playing \<lparr>body_y = Fin 412, vel = NInf, rot = Fin 0\<rparr> samplePipes))) \<and>
   vel (plushpepe (update sampleStream 1
     (sampleGame Playing \<lparr>body_y = Fin 412, vel = PInf, rot = Fin 0\<rparr> samplePipes))) = Fin 12 \<and>
   updateE sampleStream True 1
     (sampleGame Playing \<lparr>body_y = Fin 412, vel = NaN, rot = Fin 0\<rparr> samplePipes)
     = Inr (update sampleStream 1
         (sampleGame Playing \<lparr>body_y = Fin 412, vel = NaN, rot = Fin 0\<rparr> samplePipes)) \<and>
   gameState (update sampleStream 1
     (sampleGame Playing \<lparr>body_y = Fin 412, vel = NaN, rot = Fin 0\<rparr> samplePipes)) = Playing \<and>
   body_y (plushpepe (update sampleStream 1
     (sampleGame Playing \<lparr>body_y = Fin 412, vel = NaN, rot = Fin 0\<rparr> samplePipes))) = NaN"
proof -
  have h: "gameState (sampleGame Playing b samplePipes) = Playing" for b
    by (simp add: sampleGame_def)
  have a: "updateE sampleStream False 1
     (sampleGame Playing \<lparr>body_y = PInf, vel = Fin 0, rot = Fin 0\<rparr> samplePipes)
     = Inr (handleGameOver (advance 1 (updateFart 1
         (sampleGame Playing \<lparr>body_y = PInf, vel = Fin 0, rot = Fin 0\<rparr> samplePipes))))"
    using nonfinite_body [where rnd = sampleStream and step = 1 and thr = False and v = 0,
        OF h [of "\<lparr>body_y = PInf, vel = Fin 0, rot = Fin 0\<rparr>"]]
    by (simp add: sampleGame_def)
  have b: "updateE sampleStream True 1
     (sampleGame Playing \<lparr>body_y = Fin 412, vel = NInf, rot = Fin 0\<rparr> samplePipes)
     = Inl (StorageError, advance 1 (updateFart 1
         (sampleGame Playing \<lparr>body_y = Fin 412, vel = NInf, rot = Fin 0\<rparr> samplePipes)))"
    using nonfinite_body [where rnd = sampleStream and step = 1 and thr = True and p = 412,
        OF h [of "\<lparr>body_y = Fin 412, vel = NInf, rot = Fin 0\<rparr>"]]
    by (simp add: sampleGame_def)
  have c: "vel (plushpepe (update sampleStream 1
     (sampleGame Playing \<lparr>body_y = Fin 412, vel = PInf, rot = Fin 0\<rparr> samplePipes))) = Fin 12"
    using nonfinite_body [where rnd = sampleStream and step = 1,
        OF h [of "\<lparr>body_y = Fin 412, vel = PInf, rot = Fin 0\<rparr>"]]
    by (simp add: sampleGame_def MAX_FALL_SPEED_def)
  have d: "updateE sampleStream True 1
     (sampleGame Playing \<lparr>body_y = Fin 412, vel = NaN, rot = Fin 0\<rparr> samplePipes)
     = Inr (update sampleStream 1
         (sampleGame Playing \<lparr>body_y = Fin 412, vel = NaN, rot = Fin 0\<rparr> samplePipes)) \<and>
   gameState (update sampleStream 1
     (sampleGame Playing \<lparr>body_y = Fin 412, vel = NaN, rot = Fin 0\<rparr> samplePipes)) = Playing \<and>
   body_y (plushpepe (update sampleStream 1
     (sampleGame Playing \<lparr>body_y = Fin 412, vel = NaN, rot = Fin 0\<rparr> samplePipes))) = NaN"
    using nonfinite_body [where rnd = sampleStream and step = 1 and thr = True,
        OF h [of "\<lparr>body_y = Fin 412, vel = NaN, rot = Fin 0\<rparr>"]]
    by (simp add: sampleGame_def)
  show ?thesis using h a b c d by blast
qed

text \<open>
  The claim as written fails twice. The game is still playing after a tick that starts from a
  NaN position, and the position is still NaN after the tick that follows. And with a store
  that throws, the tick that starts from an infinite position ends in the exception, with the
  game still playing.
\<close>

theorem nan_position_counterexample:
  "gameState (sampleGame Playing \<lparr>body_y = NaN, vel = Fin 0, rot = Fin 0\<rparr> samplePipes)
     = Playing \<and>
   updateE sampleStream False 1
     (sampleGame Playing \<lparr>body_y = NaN, vel = Fin 0, rot = Fin 0\<rparr> samplePipes)
     = Inr (update sampleStream 1
         (sampleGame Playing \<lparr>body_y = NaN, vel = Fin 0, rot = Fin 0\<rparr> samplePipes)) \<and>
   gameState (update sampleStream 1
     (sampleGame Playing \<lparr>body_y = NaN, vel = Fin 0, rot = Fin 0\<rparr> samplePipes)) \<noteq> Gameover \<and>
   body_y (plushpepe (update sampleStream 1 (update sampleStream 1
     (sampleGame Playing \<lparr>body_y = NaN, vel = Fin 0, rot = Fin 0\<rparr> samplePipes)))) = NaN \<and>
   gameState (sampleGame Playing \<lparr>body_y = PInf, vel = Fin 0, rot = Fin 0\<rparr> samplePipes)
     = Playing \<and>
   updateE sampleStream True 1
     (sampleGame Playing \<lparr>body_y = PInf, vel = Fin 0, rot = Fin 0\<rparr> samplePipes)
     = Inl (StorageError, advance 1 (updateFart 1
         (sampleGame Playing \<lparr>body_y = PInf, vel = Fin 0, rot = Fin 0\<rparr> samplePipes))) \<and>
   gameState (advance 1 (updateFart 1
         (sampleGame Playing \<lparr>body_y = PInf, vel = Fin 0, rot = Fin 0\<rparr> samplePipes)))
     \<noteq> Gameover"
proof -
  define s where "s = sampleGame Playing \<lparr>body_y = NaN, vel = Fin 0, rot = Fin 0\<rparr> samplePipes"
  define i where "i = sampleGame Playing \<lparr>body_y = PInf, vel = Fin 0, rot = Fin 0\<rparr> samplePipes"
  have h: "gameState s = Playing" and n: "vel (plushpepe s) = NaN \<or> body_y (plushpepe s) = NaN"
    by (simp_all add: s_def sampleGame_def)
  have one: "gameState (update sampleStream 1 s) = Playing"
            "body_y (plushpepe (update sampleStream 1 s)) = NaN"
    using update_NaN [OF h n, of sampleStream 1] by simp_all
  have ret: "updateE sampleStream False 1 s = Inr (update sampleStream 1 s)"
    by (rule updateE_returns)
  have two: "body_y (plushpepe (update sampleStream 1 (update sampleStream 1 s))) = NaN"
    using update_NaN [OF one(1), of sampleStream 1] one(2) by simp
  have hi: "gameState i = Playing" "vel (plushpepe i) = Fin 0"
    "body_y (plushpepe i) = PInf \<or> body_y (plushpepe i) = NInf"
    by (simp_all add: i_def sampleGame_def)
  have thrown: "updateE sampleStream True 1 i = Inl (StorageError, advance 1 (updateFart 1 i))"
    using updateE_infinite_position [OF hi, of sampleStream True 1] by simp
  have still: "gameState (advance 1 (updateFart 1 i)) \<noteq> Gameover" using hi(1) by simp
  show ?thesis using h one ret two hi(1) thrown still unfolding s_def i_def by simp
qed

section \<open>Collision and recycling on the pools of a running game\<close>

lemma maxTimeStep_value: "maxTimeStep = 3200 / 1667"
  by (simp add: maxTimeStep_def timeStep_def Let_def)

lemma timeStep_le_max: "timeStep now lastTime \<le> maxTimeStep"
  by (simp add: maxTimeStep_value timeStep_def Let_def min_def divide_le_eq)




















end
